theory Spec2Isabelle
  imports Main "HOL-Library.Multiset"
begin

section \<open>Values, rows and errors\<close>

text \<open>
  The package is TypeScript on top of sql.js. A thrown JavaScript \<open>Error\<close> is modelled as
  a value carrying its message; every function that can throw returns its error on the
  left of a sum. Since a throw leaves the mutations made so far in place, every function
  that works on a database returns the database it leaves behind together with its
  outcome.
\<close>

type_synonym sql = string

datatype error = Error (message: string)

text \<open>
  Bind parameters are \<open>string | number | Uint8Array | null\<close>. Migration versions are
  integers (types.ts, and the ledger column is \<open>INTEGER PRIMARY KEY\<close>), so numbers are
  modelled as unbounded integers.
\<close>

datatype sqlval = SqlNumber int | SqlText string | SqlBlob "nat list" | SqlNull

text \<open>A result row as \<open>getAsObject\<close> returns it: column name and value, in column order.\<close>

type_synonym row = "(string \<times> sqlval) list"

text \<open>
  A prepared and bound statement. \<open>step()\<close> either makes the next row current, or throws,
  or (at the end of the list) returns false.
\<close>

datatype step = StepRow row | StepRaise error

record statement =
  columnNames :: "string list"
  steps :: "step list"

record query_result =
  columns :: "string list"
  rows :: "row list"

record execute_result =
  changes :: nat

section \<open>The database and the engine\<close>

text \<open>
  The engine (sql.js) is an external collaborator; the package declares the part of its
  interface that it uses (\<open>run\<close>, \<open>exec\<close>, \<open>prepare\<close>, \<open>bind\<close>, \<open>step\<close>, \<open>getAsObject\<close>,
  \<open>getColumnNames\<close>, \<open>getRowsModified\<close>, \<open>export\<close>, \<open>close\<close>). Its state is split into the ledger
  table \<open>_migrations\<close>, whose statements are written out in migrate.ts and are interpreted
  here with their SQLite meaning, and the rest of the database (\<open>user\<close>). The ledger is
  \<open>None\<close> while the table does not exist; a ledger row is the pair (version, description),
  in insertion order (\<open>applied_at\<close> is filled by the engine's clock and is read by no code
  of the package). Any other SQL is given its meaning by the parameter \<open>engine\<close>, and acts
  on the whole content of the database, the ledger table included: a script may change
  its rows, drop it or create it. A table named \<open>_migrations\<close> with other columns than
  those of migrate.ts is not represented. \<open>calls\<close> records the calls made on the handle,
  in order.
\<close>

type_synonym ledger_table = "(int \<times> string) list"

type_synonym 'u content = "ledger_table option \<times> 'u"

datatype call = Exec sql | Run sql "sqlval list" | Prepare sql "sqlval list"

record 'u database =
  ledger :: "ledger_table option"
  user :: 'u
  calls :: "call list"

record 'u engine =
  exec_sem :: "sql \<Rightarrow> 'u content \<Rightarrow> 'u content \<times> error option"
  run_sem :: "sql \<Rightarrow> sqlval list \<Rightarrow> 'u content \<Rightarrow> 'u content \<times> (error + nat)"
  prepare_sem :: "sql \<Rightarrow> sqlval list \<Rightarrow> 'u content \<Rightarrow> error + statement"

definition MIGRATIONS_TABLE_SQL :: sql where
  "MIGRATIONS_TABLE_SQL =
    ''\<newline>  CREATE TABLE IF NOT EXISTS _migrations (\<newline>'' @
    ''    version INTEGER PRIMARY KEY,\<newline>'' @
    ''    description TEXT NOT NULL,\<newline>'' @
    ''    applied_at TEXT NOT NULL DEFAULT (datetime('' @ [CHR 0x27] @ ''now'' @ [CHR 0x27] @ ''))\<newline>'' @
    ''  )\<newline>''"

definition SELECT_VERSIONS_SQL :: sql where
  "SELECT_VERSIONS_SQL = ''SELECT version FROM _migrations ORDER BY version''"

definition INSERT_MIGRATION_SQL :: sql where
  "INSERT_MIGRATION_SQL = ''INSERT INTO _migrations (version, description) VALUES (?, ?)''"

definition DELETE_MIGRATION_SQL :: sql where
  "DELETE_MIGRATION_SQL = ''DELETE FROM _migrations WHERE version = ?''"

definition no_such_table :: error where
  "no_such_table = Error ''no such table: _migrations''"

definition unique_failed :: error where
  "unique_failed = Error ''UNIQUE constraint failed: _migrations.version''"

definition datatype_mismatch :: error where
  "datatype_mismatch = Error ''datatype mismatch''"

text \<open>\<open>db.exec(sql)\<close>: a script of one or more statements. A script that throws may have
  run some of its statements, so the engine returns the state it reached as well.\<close>

definition db_exec :: "'u engine \<Rightarrow> sql \<Rightarrow> 'u database \<Rightarrow> 'u database \<times> error option" where
  "db_exec eng s db =
    (let db1 = db\<lparr>calls := calls db @ [Exec s]\<rparr> in
     if s = MIGRATIONS_TABLE_SQL then
       (case ledger db1 of
          None \<Rightarrow> (db1\<lparr>ledger := Some []\<rparr>, None)
        | Some _ \<Rightarrow> (db1, None))
     else
       (case exec_sem eng s (ledger db1, user db1) of
          ((l, u), r) \<Rightarrow> (db1\<lparr>ledger := l, user := u\<rparr>, r)))"

text \<open>
  The INSERT of migrate.ts on the ledger table. The column \<open>version\<close> is
  \<open>INTEGER PRIMARY KEY\<close>: a number that SQLite does not take for a 64-bit integer (it
  takes those strictly between the least and the greatest) is refused with "datatype
  mismatch", a version that is present with the UNIQUE error.
\<close>

definition in_int64 :: "int \<Rightarrow> bool" where
  "in_int64 v \<longleftrightarrow> - 9223372036854775808 < v \<and> v < 9223372036854775808"

definition insert_row :: "int \<Rightarrow> string \<Rightarrow> ledger_table option \<Rightarrow> error + ledger_table" where
  "insert_row v d l =
    (case l of
       None \<Rightarrow> Inl no_such_table
     | Some rs \<Rightarrow>
         if \<not> in_int64 v then Inl datatype_mismatch
         else if v \<in> set (map fst rs) then Inl unique_failed
         else Inr (rs @ [(v, d)]))"

text \<open>\<open>db.run(sql, params)\<close> followed by \<open>db.getRowsModified()\<close>.\<close>

definition ledger_insert ::
  "int \<Rightarrow> string \<Rightarrow> 'u database \<Rightarrow> 'u database \<times> (error + nat)" where
  "ledger_insert v d db =
    (case insert_row v d (ledger db) of
       Inl e \<Rightarrow> (db, Inl e)
     | Inr rs \<Rightarrow> (db\<lparr>ledger := Some rs\<rparr>, Inr 1))"

definition ledger_delete :: "int \<Rightarrow> 'u database \<Rightarrow> 'u database \<times> (error + nat)" where
  "ledger_delete v db =
    (case ledger db of
       None \<Rightarrow> (db, Inl no_such_table)
     | Some rs \<Rightarrow>
         (db\<lparr>ledger := Some (filter (\<lambda>r. fst r \<noteq> v) rs)\<rparr>,
          Inr (length (filter (\<lambda>r. fst r = v) rs))))"

fun insert_params :: "sqlval list \<Rightarrow> (int \<times> string) option" where
  "insert_params [SqlNumber v, SqlText d] = Some (v, d)"
| "insert_params _ = None"

fun delete_params :: "sqlval list \<Rightarrow> int option" where
  "delete_params [SqlNumber v] = Some v"
| "delete_params _ = None"

definition db_run ::
  "'u engine \<Rightarrow> sql \<Rightarrow> sqlval list \<Rightarrow> 'u database \<Rightarrow> 'u database \<times> (error + nat)" where
  "db_run eng s ps db =
    (let db1 = db\<lparr>calls := calls db @ [Run s ps]\<rparr> in
     case (if s = INSERT_MIGRATION_SQL then insert_params ps else None) of
       Some (v, d) \<Rightarrow> ledger_insert v d db1
     | None \<Rightarrow>
       (case (if s = DELETE_MIGRATION_SQL then delete_params ps else None) of
          Some v \<Rightarrow> ledger_delete v db1
        | None \<Rightarrow>
          (case run_sem eng s ps (ledger db1, user db1) of
             ((l, u), r) \<Rightarrow> (db1\<lparr>ledger := l, user := u\<rparr>, r))))"

text \<open>\<open>db.prepare(sql)\<close> followed by \<open>stmt.bind(params)\<close>; either may throw.\<close>

definition ledger_select :: "'u database \<Rightarrow> error + statement" where
  "ledger_select db =
    (case ledger db of
       None \<Rightarrow> Inl no_such_table
     | Some rs \<Rightarrow>
         Inr \<lparr>columnNames = [''version''],
              steps = map (\<lambda>v. StepRow [(''version'', SqlNumber v)]) (sort (map fst rs))\<rparr>)"

definition db_prepare ::
  "'u engine \<Rightarrow> sql \<Rightarrow> sqlval list \<Rightarrow> 'u database \<Rightarrow> 'u database \<times> (error + statement)" where
  "db_prepare eng s ps db =
    (let db1 = db\<lparr>calls := calls db @ [Prepare s ps]\<rparr> in
     if s = SELECT_VERSIONS_SQL \<and> ps = [] then (db1, ledger_select db1)
     else (db1, prepare_sem eng s ps (ledger db1, user db1)))"

section \<open>query.ts\<close>

text \<open>
  The loop of \<open>query\<close>: \<open>names\<close> is what \<open>stmt.getColumnNames()\<close> returns, \<open>cols\<close> and
  \<open>acc\<close> are the local variables \<open>columns\<close> and \<open>rows\<close>. \<open>stmt.free()\<close> in the
  \<open>finally\<close> block changes nothing that is observable here.
\<close>

fun query_loop :: "string list \<Rightarrow> step list \<Rightarrow> string list \<Rightarrow> row list \<Rightarrow> error + query_result" where
  "query_loop names [] cols acc = Inr \<lparr>columns = cols, rows = acc\<rparr>"
| "query_loop names (StepRaise e # rest) cols acc = Inl e"
| "query_loop names (StepRow r # rest) cols acc =
     query_loop names rest (if length cols = 0 then names else cols) (acc @ [r])"

definition query ::
  "'u engine \<Rightarrow> 'u database \<Rightarrow> sql \<Rightarrow> sqlval list \<Rightarrow> 'u database \<times> (error + query_result)" where
  "query eng db s ps =
    (case db_prepare eng s ps db of
       (db1, Inl e) \<Rightarrow> (db1, Inl e)
     | (db1, Inr stmt) \<Rightarrow> (db1, query_loop (columnNames stmt) (steps stmt) [] []))"

definition execute ::
  "'u engine \<Rightarrow> 'u database \<Rightarrow> sql \<Rightarrow> sqlval list \<Rightarrow> 'u database \<times> (error + execute_result)" where
  "execute eng db s ps =
    (case db_run eng s ps db of
       (db1, Inl e) \<Rightarrow> (db1, Inl e)
     | (db1, Inr n) \<Rightarrow> (db1, Inr \<lparr>changes = n\<rparr>))"

definition execMultiple :: "'u engine \<Rightarrow> 'u database \<Rightarrow> sql \<Rightarrow> 'u database \<times> error option" where
  "execMultiple eng db s = db_exec eng s db"

section \<open>types.ts\<close>

record migration =
  version :: int
  description :: string
  up :: sql
  down :: "sql option"

record migration_status =
  currentVersion :: int
  appliedMigrations :: "int list"
  pendingMigrations :: "migration list"

section \<open>migrate.ts\<close>

text \<open>A template literal renders an integer in decimal, with a minus sign when negative.\<close>

definition digit :: "nat \<Rightarrow> char" where
  "digit n = ''0123456789'' ! (n mod 10)"

fun show_nat :: "nat \<Rightarrow> string" where
  "show_nat n = (if n < 10 then [digit n] else show_nat (n div 10) @ [digit n])"

declare show_nat.simps [simp del]

definition show_number :: "int \<Rightarrow> string" where
  "show_number i = (if i < 0 then ''-'' @ show_nat (nat (- i)) else show_nat (nat i))"

text \<open>
  \<open>r.version\<close> on a row of \<open>query<{ version: number }>\<close>. The type argument asserts that
  the field is a number, and the rows of the ledger's SELECT always carry one, so the
  last branch is not reached from migrate.ts.
\<close>

definition number_field :: "string \<Rightarrow> row \<Rightarrow> int" where
  "number_field k r = (case map_of r k of Some (SqlNumber n) \<Rightarrow> n | _ \<Rightarrow> 0)"

text \<open>\<open>new Set(xs)\<close>, as the list of its members in insertion order.\<close>

fun set_add_all :: "'a list \<Rightarrow> 'a list \<Rightarrow> 'a list" where
  "set_add_all acc [] = acc"
| "set_add_all acc (x # xs) = set_add_all (if x \<in> set acc then acc else acc @ [x]) xs"

definition new_Set :: "'a list \<Rightarrow> 'a list" where
  "new_Set xs = set_add_all [] xs"

definition ensureMigrationsTable :: "'u engine \<Rightarrow> 'u database \<Rightarrow> 'u database \<times> error option" where
  "ensureMigrationsTable eng db = execMultiple eng db MIGRATIONS_TABLE_SQL"

text \<open>\<open>Array.prototype.sort\<close> is stable, as \<open>sort_key\<close> is.\<close>

definition getMigrationStatus ::
  "'u engine \<Rightarrow> 'u database \<Rightarrow> migration list \<Rightarrow> 'u database \<times> (error + migration_status)" where
  "getMigrationStatus eng db migrations =
    (case ensureMigrationsTable eng db of
       (db1, Some e) \<Rightarrow> (db1, Inl e)
     | (db1, None) \<Rightarrow>
       (case query eng db1 SELECT_VERSIONS_SQL [] of
          (db2, Inl e) \<Rightarrow> (db2, Inl e)
        | (db2, Inr applied) \<Rightarrow>
            (let appliedVersions = new_Set (map (number_field ''version'') (rows applied));
                 appliedMigrations = sort appliedVersions;
                 currentVersion =
                   (if length appliedMigrations > 0
                    then appliedMigrations ! (length appliedMigrations - 1)
                    else 0);
                 pendingMigrations =
                   sort_key version
                     (filter (\<lambda>m. \<not> (version m \<in> set appliedVersions)) migrations)
             in (db2, Inr \<lparr>currentVersion = currentVersion,
                           appliedMigrations = appliedMigrations,
                           pendingMigrations = pendingMigrations\<rparr>))))"

definition apply_failure :: "migration \<Rightarrow> error \<Rightarrow> error" where
  "apply_failure m e =
     Error (''Failed to apply migration '' @ show_number (version m) @ '' ('' @
            description m @ ''): '' @ message e)"

text \<open>The \<open>for\<close> loop of \<open>runMigrations\<close> over the pending migrations; \<open>applied\<close> is the
  accumulator of the same name.\<close>

fun run_loop ::
  "'u engine \<Rightarrow> migration list \<Rightarrow> migration list \<Rightarrow> 'u database \<Rightarrow>
   'u database \<times> (error + migration list)" where
  "run_loop eng [] applied db = (db, Inr applied)"
| "run_loop eng (m # ms) applied db =
     (case execMultiple eng db (up m) of
        (db1, Some e) \<Rightarrow> (db1, Inl (apply_failure m e))
      | (db1, None) \<Rightarrow>
        (case execute eng db1 INSERT_MIGRATION_SQL
                [SqlNumber (version m), SqlText (description m)] of
           (db2, Inl e) \<Rightarrow> (db2, Inl (apply_failure m e))
         | (db2, Inr _) \<Rightarrow> run_loop eng ms (applied @ [m]) db2))"

definition runMigrations ::
  "'u engine \<Rightarrow> 'u database \<Rightarrow> migration list \<Rightarrow> 'u database \<times> (error + migration list)" where
  "runMigrations eng db migrations =
    (case getMigrationStatus eng db migrations of
       (db1, Inl e) \<Rightarrow> (db1, Inl e)
     | (db1, Inr status) \<Rightarrow> run_loop eng (pendingMigrations status) [] db1)"

definition not_found_error :: "int \<Rightarrow> error" where
  "not_found_error v = Error (''Migration '' @ show_number v @ '' not found in migrations list'')"

definition no_down_error :: "migration \<Rightarrow> error" where
  "no_down_error m =
     Error (''Migration '' @ show_number (version m) @ '' ('' @ description m @
            '') has no down migration'')"

definition rollback_failure :: "migration \<Rightarrow> error \<Rightarrow> error" where
  "rollback_failure m e =
     Error (''Failed to rollback migration '' @ show_number (version m) @ '': '' @ message e)"

text \<open>\<open>!migration.down\<close> holds for a missing \<open>down\<close> and for the empty string.\<close>

definition rollbackMigration ::
  "'u engine \<Rightarrow> 'u database \<Rightarrow> migration list \<Rightarrow> 'u database \<times> (error + migration option)" where
  "rollbackMigration eng db migrations =
    (case getMigrationStatus eng db migrations of
       (db1, Inl e) \<Rightarrow> (db1, Inl e)
     | (db1, Inr status) \<Rightarrow>
       if currentVersion status = 0 then (db1, Inr None)
       else
         (case find (\<lambda>m. version m = currentVersion status) migrations of
            None \<Rightarrow> (db1, Inl (not_found_error (currentVersion status)))
          | Some m \<Rightarrow>
            (case down m of
               None \<Rightarrow> (db1, Inl (no_down_error m))
             | Some d \<Rightarrow>
               if d = [] then (db1, Inl (no_down_error m))
               else
                 (case execMultiple eng db1 d of
                    (db2, Some e) \<Rightarrow> (db2, Inl (rollback_failure m e))
                  | (db2, None) \<Rightarrow>
                    (case execute eng db2 DELETE_MIGRATION_SQL [SqlNumber (version m)] of
                       (db3, Inl e) \<Rightarrow> (db3, Inl (rollback_failure m e))
                     | (db3, Inr _) \<Rightarrow> (db3, Inr (Some m)))))))"

definition createMigration :: "int \<Rightarrow> string \<Rightarrow> sql \<Rightarrow> sql option \<Rightarrow> migration" where
  "createMigration v d u dn = \<lparr>version = v, description = d, up = u, down = dn\<rparr>"

section \<open>connect.ts\<close>

text \<open>
  The world outside the handle: what \<open>readFile\<close> finds at each path, whether \<open>initSqlJs\<close>,
  \<open>mkdir\<close> and \<open>writeFile\<close> fail, the number of handles that are open, and the trace of the
  calls made. A database image is the ledger together with the rest of the database;
  a handle built from an image starts with an empty call record. \<open>getSql\<close> caches the
  promise of \<open>initSqlJs\<close>, whose outcome is \<open>init_fails\<close>. \<open>await\<close> sequences the steps;
  there is one thread. \<open>db.close()\<close> does not throw.
\<close>

datatype 'u disk_file = NoEntry | ReadFails error | Image "ledger_table option" 'u

datatype io_call =
  ReadFile string | NewDatabase | Export | Mkdir string | WriteFile string | Close

record 'u world =
  files :: "string \<Rightarrow> 'u disk_file"
  init_fails :: "error option"
  mkdir_fails :: "string \<Rightarrow> error option"
  write_fails :: "string \<Rightarrow> error option"
  dirname :: "string \<Rightarrow> string"
  empty_user :: 'u
  open_handles :: nat
  io :: "io_call list"

record connection_config =
  dbPath :: string

definition log_io :: "io_call \<Rightarrow> 'u world \<Rightarrow> 'u world" where
  "log_io c w = w\<lparr>io := io w @ [c]\<rparr>"

definition new_Database ::
  "ledger_table option \<Rightarrow> 'u \<Rightarrow> 'u world \<Rightarrow> 'u world \<times> (error + 'u database)" where
  "new_Database l u w =
     ((log_io NewDatabase w)\<lparr>open_handles := open_handles w + 1\<rparr>,
      Inr \<lparr>ledger = l, user = u, calls = []\<rparr>)"

definition loadDatabase :: "'u world \<Rightarrow> string \<Rightarrow> 'u world \<times> (error + 'u database)" where
  "loadDatabase w path =
    (case init_fails w of
       Some e \<Rightarrow> (w, Inl e)
     | None \<Rightarrow>
       if path = '':memory:'' then new_Database None (empty_user w) w
       else
         (case files w path of
            Image l u \<Rightarrow> new_Database l u (log_io (ReadFile path) w)
          | NoEntry \<Rightarrow> new_Database None (empty_user w) (log_io (ReadFile path) w)
          | ReadFails e \<Rightarrow> (log_io (ReadFile path) w, Inl e)))"

definition saveDatabase :: "'u world \<Rightarrow> 'u database \<Rightarrow> string \<Rightarrow> 'u world \<times> error option" where
  "saveDatabase w db path =
    (if path = '':memory:'' then (w, None)
     else
       (let w1 = log_io Export w;
            w2 = log_io (Mkdir (dirname w path)) w1
        in case mkdir_fails w (dirname w path) of
             Some e \<Rightarrow> (w2, Some e)
           | None \<Rightarrow>
             (let w3 = log_io (WriteFile path) w2
              in case write_fails w path of
                   Some e \<Rightarrow> (w3, Some e)
                 | None \<Rightarrow>
                     (w3\<lparr>files := (files w3)(path := Image (ledger db) (user db))\<rparr>, None))))"

definition db_close :: "'u world \<Rightarrow> 'u world" where
  "db_close w = (log_io Close w)\<lparr>open_handles := open_handles w - 1\<rparr>"

text \<open>The callback receives the handle and returns it as it left it, with its value or
  the error it raised.\<close>

type_synonym ('u, 'a) connection_callback = "'u database \<Rightarrow> 'u database \<times> (error + 'a)"

definition withConnection ::
  "'u world \<Rightarrow> connection_config \<Rightarrow> ('u, 'a) connection_callback \<Rightarrow> 'u world \<times> (error + 'a)" where
  "withConnection w config fn =
    (case loadDatabase w (dbPath config) of
       (w1, Inl e) \<Rightarrow> (w1, Inl e)
     | (w1, Inr db) \<Rightarrow>
       (case fn db of
          (db1, Inl e) \<Rightarrow> (db_close w1, Inl e)
        | (db1, Inr result) \<Rightarrow>
          (case saveDatabase w1 db1 (dbPath config) of
             (w2, Some e) \<Rightarrow> (db_close w2, Inl e)
           | (w2, None) \<Rightarrow> (db_close w2, Inr result))))"

section \<open>A small engine for running the model\<close>

text \<open>
  An engine to evaluate the functions above on concrete inputs. The rest of its database
  is the list of the names of its tables. A script is a list of statements separated by
  semicolons, run in order up to the first one that fails, as \<open>db.exec\<close> does: what the
  earlier statements did stays. It knows four statements, with the answers of SQLite:
  \<open>CREATE TABLE name(columns)\<close>, \<open>DROP TABLE name\<close> (the ledger table included),
  \<open>DELETE FROM _migrations\<close> and the empty statement. The column list of a CREATE is
  not parsed (those used below are valid), and a CREATE of \<open>_migrations\<close> is not among the
  statements it knows. Anything else is answered with a syntax error at its first word;
  of these, only the word \<open>BOGUS\<close> is used below.
\<close>

fun split_on :: "char \<Rightarrow> string \<Rightarrow> string list" where
  "split_on c [] = [[]]"
| "split_on c (x # xs) =
     (if x = c then [] # split_on c xs
      else (case split_on c xs of [] \<Rightarrow> [[x]] | w # ws \<Rightarrow> (x # w) # ws))"

definition syntax_error :: "string \<Rightarrow> error" where
  "syntax_error t = Error (''near '' @ [CHR 0x22] @ t @ [CHR 0x22] @ '': syntax error'')"

definition created_name :: "string \<Rightarrow> string option" where
  "created_name s =
    (let rest = drop 13 s;
         name = takeWhile (\<lambda>c. c \<noteq> CHR ''('') rest;
         cols = dropWhile (\<lambda>c. c \<noteq> CHR ''('') rest
     in if take 13 s = ''CREATE TABLE '' \<and> name \<noteq> [] \<and> name \<noteq> ''_migrations'' \<and>
           3 \<le> length cols \<and> last cols = CHR '')''
        then Some name else None)"

definition table_statement ::
  "string \<Rightarrow> string list content \<Rightarrow> string list content \<times> error option" where
  "table_statement s c =
    (if s = [] then (c, None)
     else if s = ''DELETE FROM _migrations'' then
       (case fst c of
          None \<Rightarrow> (c, Some no_such_table)
        | Some rs \<Rightarrow> ((Some [], snd c), None))
     else if s = ''DROP TABLE _migrations'' then
       (case fst c of
          None \<Rightarrow> (c, Some no_such_table)
        | Some rs \<Rightarrow> ((None, snd c), None))
     else if take 11 s = ''DROP TABLE '' then
       (if drop 11 s \<in> set (snd c)
        then ((fst c, filter (\<lambda>t. t \<noteq> drop 11 s) (snd c)), None)
        else (c, Some (Error (''no such table: '' @ drop 11 s))))
     else
       (case created_name s of
          Some name \<Rightarrow>
            if name \<in> set (snd c)
            then (c, Some (Error (''table '' @ name @ '' already exists'')))
            else ((fst c, snd c @ [name]), None)
        | None \<Rightarrow> (c, Some (syntax_error (takeWhile (\<lambda>c. c \<noteq> CHR '' '') s)))))"

fun table_script ::
  "string list \<Rightarrow> string list content \<Rightarrow> string list content \<times> error option" where
  "table_script [] c = (c, None)"
| "table_script (s # ss) c =
     (case table_statement s c of
        (c1, Some e) \<Rightarrow> (c1, Some e)
      | (c1, None) \<Rightarrow> table_script ss c1)"

definition table_engine :: "string list engine" where
  "table_engine =
     \<lparr>exec_sem = (\<lambda>s c. table_script (split_on CHR '';'' s) c),
      run_sem = (\<lambda>s ps c. (c, Inl (Error ''not supported''))),
      prepare_sem = (\<lambda>s ps c. Inl (Error ''not supported''))\<rparr>"

definition fresh_db :: "string list database" where
  "fresh_db = \<lparr>ledger = None, user = [], calls = []\<rparr>"

definition mig_a :: migration where
  "mig_a = \<lparr>version = 1, description = ''create a'',
            up = ''CREATE TABLE a(id INTEGER PRIMARY KEY)'', down = Some ''DROP TABLE a''\<rparr>"

definition mig_b :: migration where
  "mig_b = \<lparr>version = 2, description = ''create b'',
            up = ''CREATE TABLE b(id INTEGER PRIMARY KEY)'', down = Some ''DROP TABLE b''\<rparr>"

definition mig_c :: migration where
  "mig_c = \<lparr>version = 3, description = ''create c'',
            up = ''CREATE TABLE c(id INTEGER PRIMARY KEY)'', down = Some ''DROP TABLE c''\<rparr>"

definition mig_d :: migration where
  "mig_d = \<lparr>version = 4, description = ''create d'',
            up = ''CREATE TABLE d(id INTEGER PRIMARY KEY)'', down = None\<rparr>"

text \<open>A second migration with version 1.\<close>

definition mig_z :: migration where
  "mig_z = \<lparr>version = 1, description = ''create z'',
            up = ''CREATE TABLE z(id INTEGER PRIMARY KEY)'', down = None\<rparr>"

text \<open>A script that creates a table and then fails.\<close>

definition mig_bad :: migration where
  "mig_bad = \<lparr>version = 2, description = ''create b'',
              up = ''CREATE TABLE b(id INTEGER PRIMARY KEY);BOGUS'', down = None\<rparr>"

text \<open>Scripts that touch the ledger table: they empty it, empty it and then fail, or
  drop it; and a \<open>down\<close> script that empties it.\<close>

definition mig_wipe :: migration where
  "mig_wipe = \<lparr>version = 2, description = ''wipe'', up = ''DELETE FROM _migrations'',
               down = None\<rparr>"

definition mig_wipe_bad :: migration where
  "mig_wipe_bad = \<lparr>version = 2, description = ''wipe'',
                   up = ''DELETE FROM _migrations;BOGUS'', down = None\<rparr>"

definition mig_drop :: migration where
  "mig_drop = \<lparr>version = 2, description = ''drop ledger'', up = ''DROP TABLE _migrations'',
               down = None\<rparr>"

definition mig_s :: migration where
  "mig_s = \<lparr>version = 2, description = ''create s'',
            up = ''CREATE TABLE s(id INTEGER PRIMARY KEY)'',
            down = Some ''DROP TABLE s;DELETE FROM _migrations''\<rparr>"

text \<open>A world with no files in which no operation fails.\<close>

definition empty_world :: "string list world" where
  "empty_world =
     \<lparr>files = (\<lambda>p. NoEntry), init_fails = None, mkdir_fails = (\<lambda>p. None),
      write_fails = (\<lambda>p. None), dirname = (\<lambda>p. ''data''), empty_user = [],
      open_handles = 0, io = []\<rparr>"

section \<open>Vocabulary of the statements\<close>

definition ledger_rows :: "'u database \<Rightarrow> (int \<times> string) list" where
  "ledger_rows db = (case ledger db of None \<Rightarrow> [] | Some rs \<Rightarrow> rs)"

definition applied_versions :: "'u database \<Rightarrow> int set" where
  "applied_versions db = fst ` set (ledger_rows db)"

definition ledger_entry :: "migration \<Rightarrow> int \<times> string" where
  "ledger_entry m = (version m, description m)"

definition status_calls :: "call list" where
  "status_calls = [Exec MIGRATIONS_TABLE_SQL, Prepare SELECT_VERSIONS_SQL []]"

definition insert_call :: "migration \<Rightarrow> call" where
  "insert_call m = Run INSERT_MIGRATION_SQL [SqlNumber (version m), SqlText (description m)]"

definition apply_calls :: "migration \<Rightarrow> call list" where
  "apply_calls m = [Exec (up m), insert_call m]"

text \<open>What \<open>db.exec\<close> of a script does to the content of the database, and whether it
  throws.\<close>

definition script_effect :: "'u engine \<Rightarrow> sql \<Rightarrow> 'u content \<Rightarrow> 'u content \<times> error option" where
  "script_effect eng s c =
     (if s = MIGRATIONS_TABLE_SQL
      then ((Some (case fst c of None \<Rightarrow> [] | Some rs \<Rightarrow> rs), snd c), None)
      else exec_sem eng s c)"

text \<open>A script that leaves an existing ledger table as it found it.\<close>

definition keeps_ledger :: "'u engine \<Rightarrow> sql \<Rightarrow> bool" where
  "keeps_ledger eng s \<longleftrightarrow> (\<forall>rs u. fst (fst (script_effect eng s (Some rs, u))) = Some rs)"

definition content :: "'u database \<Rightarrow> 'u content" where
  "content db = (ledger db, user db)"

definition delete_call :: "migration \<Rightarrow> call" where
  "delete_call m = Run DELETE_MIGRATION_SQL [SqlNumber (version m)]"

text \<open>The databases that the small engine reaches from \<open>fresh_db\<close> by applying the three
  migrations and then rolling back once and twice.\<close>

definition db_abc :: "string list database" where
  "db_abc =
     \<lparr>ledger = Some [(1, ''create a''), (2, ''create b''), (3, ''create c'')],
      user = [''a'', ''b'', ''c''],
      calls = status_calls @ apply_calls mig_a @ apply_calls mig_b @ apply_calls mig_c\<rparr>"

definition db_ab :: "string list database" where
  "db_ab =
     \<lparr>ledger = Some [(1, ''create a''), (2, ''create b'')],
      user = [''a'', ''b''],
      calls = calls db_abc @ status_calls @
              [Exec ''DROP TABLE c'', Run DELETE_MIGRATION_SQL [SqlNumber 3]]\<rparr>"

definition db_a :: "string list database" where
  "db_a =
     \<lparr>ledger = Some [(1, ''create a'')],
      user = [''a''],
      calls = calls db_ab @ status_calls @
              [Exec ''DROP TABLE b'', Run DELETE_MIGRATION_SQL [SqlNumber 2]]\<rparr>"

definition db_unknown :: "string list database" where
  "db_unknown = \<lparr>ledger = Some [(4, ''create d''), (1, ''create a'')], user = [''a'', ''d''],
                 calls = []\<rparr>"

section \<open>The status computation\<close>

lemma query_loop_rows:
  "query_loop names (map StepRow rs) cols acc =
     Inr \<lparr>columns = (if rs = [] then cols else if cols = [] then names else cols),
          rows = acc @ rs\<rparr>"
  by (induction rs arbitrary: cols acc) auto

lemma set_set_add_all: "set (set_add_all acc xs) = set acc \<union> set xs"
  by (induction xs arbitrary: acc) auto

lemma distinct_set_add_all: "distinct acc \<Longrightarrow> distinct (set_add_all acc xs)"
  by (induction xs arbitrary: acc) auto

lemma set_new_Set: "set (new_Set xs) = set xs"
  by (simp add: new_Set_def set_set_add_all)

lemma distinct_new_Set: "distinct (new_Set xs)"
  by (simp add: new_Set_def distinct_set_add_all)

lemma sort_new_Set: "sort (new_Set xs) = sorted_list_of_set (set xs)"
proof -
  have "sorted_list_of_set (set (sort (new_Set xs))) = sort (new_Set xs)"
    by (rule sorted_list_of_set.idem_if_sorted_distinct) (simp_all add: distinct_new_Set)
  then show ?thesis by (simp add: set_new_Set)
qed

lemma number_field_version: "number_field ''version'' [(''version'', SqlNumber v)] = v"
  by (simp add: number_field_def)

lemma ensureMigrationsTable_eq:
  "ensureMigrationsTable eng db =
     (db\<lparr>calls := calls db @ [Exec MIGRATIONS_TABLE_SQL], ledger := Some (ledger_rows db)\<rparr>, None)"
  by (cases "ledger db") (simp_all add: ensureMigrationsTable_def execMultiple_def db_exec_def ledger_rows_def Let_def)

lemma sort_Nil_iff: "sort xs = [] \<longleftrightarrow> xs = []"
  by (metis length_sort length_0_conv)

lemma select_versions_eq:
  "ledger db = Some rs \<Longrightarrow>
   query eng db SELECT_VERSIONS_SQL [] =
     (db\<lparr>calls := calls db @ [Prepare SELECT_VERSIONS_SQL []]\<rparr>,
      Inr \<lparr>columns = (if rs = [] then [] else [''version'']),
           rows = map (\<lambda>v. [(''version'', SqlNumber v)]) (sort (map fst rs))\<rparr>)"
  using query_loop_rows [of "[''version'']" "map (\<lambda>v. [(''version'', SqlNumber v)]) (sort (map fst rs))" "[]" "[]"]
  by (simp add: query_def db_prepare_def ledger_select_def Let_def comp_def sort_Nil_iff)

lemma last_sorted_Max: "sorted xs \<Longrightarrow> xs \<noteq> [] \<Longrightarrow> xs ! (length xs - 1) = Max (set xs)"
proof (induction xs)
  case Nil
  then show ?case by simp
next
  case (Cons x xs)
  show ?case
  proof (cases "xs = []")
    case True
    then show ?thesis by simp
  next
    case False
    with Cons have ih: "xs ! (length xs - 1) = Max (set xs)" by simp
    from Cons.prems have "\<forall>y\<in>set xs. x \<le> y" by simp
    with False have "x \<le> Max (set xs)"
      by (metis List.finite_set Max_ge_iff set_empty last_in_set)
    with False ih show ?thesis by (simp add: max_absorb2 nth_Cons')
  qed
qed

lemma getMigrationStatus_eq:
  "getMigrationStatus eng db L =
     (db\<lparr>calls := calls db @ status_calls, ledger := Some (ledger_rows db)\<rparr>,
      Inr \<lparr>currentVersion = (if ledger_rows db = [] then 0 else Max (applied_versions db)),
           appliedMigrations = sorted_list_of_set (applied_versions db),
           pendingMigrations =
             sort_key version (filter (\<lambda>m. version m \<notin> applied_versions db) L)\<rparr>)"
proof -
  let ?rs = "ledger_rows db"
  let ?vs = "map (number_field ''version'') (map (\<lambda>v. [(''version'', SqlNumber v)]) (sort (map fst ?rs)))"
  have vs: "?vs = sort (map fst ?rs)"
    by (simp add: comp_def number_field_version)
  have set_vs: "set (new_Set ?vs) = applied_versions db"
    by (simp only: vs set_new_Set) (simp add: applied_versions_def)
  have sorted_vs: "sort (new_Set ?vs) = sorted_list_of_set (applied_versions db)"
    by (simp only: sort_new_Set vs) (simp add: applied_versions_def)
  have cur: "(if length (sorted_list_of_set (applied_versions db)) > 0
              then sorted_list_of_set (applied_versions db) !
                   (length (sorted_list_of_set (applied_versions db)) - 1)
              else 0) = (if ?rs = [] then 0 else Max (applied_versions db))"
  proof (cases "?rs = []")
    case True
    then show ?thesis by (simp add: applied_versions_def)
  next
    case False
    then have ne: "sorted_list_of_set (applied_versions db) \<noteq> []"
      by (simp add: applied_versions_def)
    from last_sorted_Max [OF _ ne] False ne show ?thesis
      by (simp add: applied_versions_def)
  qed
  have q: "query eng (db\<lparr>calls := calls db @ [Exec MIGRATIONS_TABLE_SQL], ledger := Some ?rs\<rparr>)
              SELECT_VERSIONS_SQL [] =
            (db\<lparr>calls := calls db @ status_calls, ledger := Some ?rs\<rparr>,
             Inr \<lparr>columns = (if ?rs = [] then [] else [''version'']),
                  rows = map (\<lambda>v. [(''version'', SqlNumber v)]) (sort (map fst ?rs))\<rparr>)"
    by (subst select_versions_eq [where rs = "?rs"]) (simp_all add: status_calls_def)
  show ?thesis
    unfolding getMigrationStatus_def ensureMigrationsTable_eq q prod.case option.case sum.case
      Let_def query_result.simps set_vs sorted_vs cur
    by (rule refl)
qed



section \<open>The engine calls of migrate.ts\<close>

lemma execMultiple_eq:
  "execMultiple eng db s =
     (\<lparr>ledger = fst (fst (script_effect eng s (content db))),
       user = snd (fst (script_effect eng s (content db))),
       calls = calls db @ [Exec s]\<rparr>,
      snd (script_effect eng s (content db)))"
  by (cases db)
     (simp add: execMultiple_def db_exec_def script_effect_def content_def Let_def
       split: prod.splits option.splits)

lemma execute_insert_eq:
  "execute eng db INSERT_MIGRATION_SQL [SqlNumber v, SqlText d] =
     (case insert_row v d (ledger db) of
        Inl e \<Rightarrow>
          (\<lparr>ledger = ledger db, user = user db,
            calls = calls db @ [Run INSERT_MIGRATION_SQL [SqlNumber v, SqlText d]]\<rparr>, Inl e)
      | Inr rs \<Rightarrow>
          (\<lparr>ledger = Some rs, user = user db,
            calls = calls db @ [Run INSERT_MIGRATION_SQL [SqlNumber v, SqlText d]]\<rparr>,
           Inr \<lparr>changes = 1\<rparr>))"
  by (cases db) (simp add: execute_def db_run_def ledger_insert_def Let_def split: sum.splits)

lemma delete_ne_insert: "DELETE_MIGRATION_SQL \<noteq> INSERT_MIGRATION_SQL"
  by (simp add: DELETE_MIGRATION_SQL_def INSERT_MIGRATION_SQL_def)

lemma execute_delete_eq:
  "execute eng db DELETE_MIGRATION_SQL [SqlNumber v] =
     (case ledger db of
        None \<Rightarrow>
          (\<lparr>ledger = None, user = user db,
            calls = calls db @ [Run DELETE_MIGRATION_SQL [SqlNumber v]]\<rparr>, Inl no_such_table)
      | Some rs \<Rightarrow>
          (\<lparr>ledger = Some (filter (\<lambda>r. fst r \<noteq> v) rs), user = user db,
            calls = calls db @ [Run DELETE_MIGRATION_SQL [SqlNumber v]]\<rparr>,
           Inr \<lparr>changes = length (filter (\<lambda>r. fst r = v) rs)\<rparr>))"
  by (cases db)
     (simp add: execute_def db_run_def ledger_delete_def Let_def delete_ne_insert
       split: option.splits)

text \<open>One turn of the loop of \<open>runMigrations\<close>.\<close>

lemma run_loop_Cons:
  "run_loop eng (m # ms) acc db =
     (case snd (script_effect eng (up m) (content db)) of
        Some e \<Rightarrow>
          (\<lparr>ledger = fst (fst (script_effect eng (up m) (content db))),
            user = snd (fst (script_effect eng (up m) (content db))),
            calls = calls db @ [Exec (up m)]\<rparr>,
           Inl (apply_failure m e))
      | None \<Rightarrow>
          (case insert_row (version m) (description m)
                  (fst (fst (script_effect eng (up m) (content db)))) of
             Inl e \<Rightarrow>
               (\<lparr>ledger = fst (fst (script_effect eng (up m) (content db))),
                 user = snd (fst (script_effect eng (up m) (content db))),
                 calls = calls db @ apply_calls m\<rparr>,
                Inl (apply_failure m e))
           | Inr rs \<Rightarrow>
               run_loop eng ms (acc @ [m])
                 \<lparr>ledger = Some rs,
                  user = snd (fst (script_effect eng (up m) (content db))),
                  calls = calls db @ apply_calls m\<rparr>))"
  by (simp add: execMultiple_eq execute_insert_eq apply_calls_def insert_call_def
      split: option.splits sum.splits)

lemma run_loop_append:
  "run_loop eng (ps @ qs) acc db =
     (case run_loop eng ps acc db of
        (db1, Inl e) \<Rightarrow> (db1, Inl e)
      | (db1, Inr a) \<Rightarrow> run_loop eng qs a db1)"
  by (induction ps arbitrary: acc db) (auto split: prod.splits option.splits sum.splits)

lemma insert_row_Some:
  "insert_row v d (Some rs) = Inr rs' \<Longrightarrow> rs' = rs @ [(v, d)] \<and> v \<notin> fst ` set rs \<and> in_int64 v"
  by (auto simp: insert_row_def split: if_splits)

lemma keeps_ledgerD:
  "keeps_ledger eng s \<Longrightarrow> ledger db = Some rs \<Longrightarrow>
   fst (fst (script_effect eng s (content db))) = Some rs"
  by (simp add: keeps_ledger_def content_def)


lemma run_loop_outcome:
  "run_loop eng ps acc db = (db', r) \<Longrightarrow>
   \<exists>applied rest. ps = applied @ rest \<and>
     (r = Inr (acc @ ps) \<and> rest = [] \<and>
      calls db' = calls db @ concat (map apply_calls applied) \<or>
      (\<exists>pk rest' cause. rest = pk # rest' \<and> r = Inl (apply_failure pk cause) \<and>
         (calls db' = calls db @ concat (map apply_calls applied) @ [Exec (up pk)] \<or>
          calls db' = calls db @ concat (map apply_calls applied) @ apply_calls pk))) \<and>
     (\<forall>rs. ledger db = Some rs \<and> (\<forall>m\<in>set ps. keeps_ledger eng (up m)) \<longrightarrow>
        ledger db' = Some (rs @ map ledger_entry applied))"
proof (induction ps arbitrary: acc db)
  case Nil
  then have "[] = [] @ ([] :: migration list) \<and>
     (r = Inr (acc @ []) \<and> ([] :: migration list) = [] \<and>
      calls db' = calls db @ concat (map apply_calls [])) \<and>
     (\<forall>rs. ledger db = Some rs \<and> (\<forall>m\<in>set []. keeps_ledger eng (up m)) \<longrightarrow>
        ledger db' = Some (rs @ map ledger_entry []))"
    by auto
  then show ?case by blast
next
  case (Cons m ms)
  let ?E = "script_effect eng (up m) (content db)"
  have keep: "fst (fst ?E) = Some rs"
    if "ledger db = Some rs" "\<forall>x\<in>set (m # ms). keeps_ledger eng (up x)" for rs
    using that by (simp add: keeps_ledgerD)
  show ?case
  proof (cases "snd ?E")
    case (Some e)
    with Cons.prems have r: "r = Inl (apply_failure m e)"
      and db': "db' = \<lparr>ledger = fst (fst ?E), user = snd (fst ?E),
                        calls = calls db @ [Exec (up m)]\<rparr>"
      by (auto simp: run_loop_Cons simp del: run_loop.simps)
    have "m # ms = [] @ (m # ms) \<and>
      (\<exists>pk rest' cause. m # ms = pk # rest' \<and> r = Inl (apply_failure pk cause) \<and>
         (calls db' = calls db @ concat (map apply_calls []) @ [Exec (up pk)] \<or>
          calls db' = calls db @ concat (map apply_calls []) @ apply_calls pk)) \<and>
      (\<forall>rs. ledger db = Some rs \<and> (\<forall>x\<in>set (m # ms). keeps_ledger eng (up x)) \<longrightarrow>
        ledger db' = Some (rs @ map ledger_entry []))"
      using r db' keep by auto
    then show ?thesis by blast
  next
    case None
    show ?thesis
    proof (cases "insert_row (version m) (description m) (fst (fst ?E))")
      case (Inl e)
      with None Cons.prems have r: "r = Inl (apply_failure m e)"
        and db': "db' = \<lparr>ledger = fst (fst ?E), user = snd (fst ?E),
                          calls = calls db @ apply_calls m\<rparr>"
        by (auto simp: run_loop_Cons simp del: run_loop.simps)
      have "m # ms = [] @ (m # ms) \<and>
        (\<exists>pk rest' cause. m # ms = pk # rest' \<and> r = Inl (apply_failure pk cause) \<and>
           (calls db' = calls db @ concat (map apply_calls []) @ [Exec (up pk)] \<or>
            calls db' = calls db @ concat (map apply_calls []) @ apply_calls pk)) \<and>
        (\<forall>rs. ledger db = Some rs \<and> (\<forall>x\<in>set (m # ms). keeps_ledger eng (up x)) \<longrightarrow>
          ledger db' = Some (rs @ map ledger_entry []))"
        using r db' keep by auto
      then show ?thesis by blast
    next
      case (Inr rs1)
      let ?db1 = "\<lparr>ledger = Some rs1, user = snd (fst ?E), calls = calls db @ apply_calls m\<rparr>"
      from None Inr Cons.prems have run: "run_loop eng ms (acc @ [m]) ?db1 = (db', r)"
        by (simp add: run_loop_Cons del: run_loop.simps)
      from Cons.IH [OF run] obtain applied rest where
        split: "ms = applied @ rest"
        and out: "r = Inr ((acc @ [m]) @ ms) \<and> rest = [] \<and>
            calls db' = calls ?db1 @ concat (map apply_calls applied) \<or>
            (\<exists>pk rest' cause. rest = pk # rest' \<and> r = Inl (apply_failure pk cause) \<and>
               (calls db' = calls ?db1 @ concat (map apply_calls applied) @ [Exec (up pk)] \<or>
                calls db' = calls ?db1 @ concat (map apply_calls applied) @ apply_calls pk))"
        and led: "\<forall>rs. ledger ?db1 = Some rs \<and> (\<forall>x\<in>set ms. keeps_ledger eng (up x)) \<longrightarrow>
            ledger db' = Some (rs @ map ledger_entry applied)"
        by blast
      have 1: "m # ms = (m # applied) @ rest" using split by simp
      have 2: "r = Inr (acc @ m # ms) \<and> rest = [] \<and>
            calls db' = calls db @ concat (map apply_calls (m # applied)) \<or>
            (\<exists>pk rest' cause. rest = pk # rest' \<and> r = Inl (apply_failure pk cause) \<and>
               (calls db' = calls db @ concat (map apply_calls (m # applied)) @ [Exec (up pk)] \<or>
                calls db' = calls db @ concat (map apply_calls (m # applied)) @ apply_calls pk))"
        using out by simp
      have 3: "\<forall>rs. ledger db = Some rs \<and> (\<forall>x\<in>set (m # ms). keeps_ledger eng (up x)) \<longrightarrow>
            ledger db' = Some (rs @ map ledger_entry (m # applied))"
      proof (intro allI impI)
        fix rs
        assume a: "ledger db = Some rs \<and> (\<forall>x\<in>set (m # ms). keeps_ledger eng (up x))"
        then have "fst (fst ?E) = Some rs" using keep by blast
        with Inr have "rs1 = rs @ [ledger_entry m]"
          by (auto dest: insert_row_Some simp: ledger_entry_def)
        moreover from a have "\<forall>x\<in>set ms. keeps_ledger eng (up x)" by simp
        ultimately show "ledger db' = Some (rs @ map ledger_entry (m # applied))"
          using led by simp
      qed
      from 1 2 3 show ?thesis by blast
    qed
  qed
qed


lemma runMigrations_eq:
  "runMigrations eng db L =
     run_loop eng (sort_key version (filter (\<lambda>m. version m \<notin> applied_versions db) L)) []
       \<lparr>ledger = Some (ledger_rows db), user = user db, calls = calls db @ status_calls\<rparr>"
  by (cases db) (simp add: runMigrations_def getMigrationStatus_eq)

lemma pending_permutation:
  assumes "mset L' = mset L" "distinct (map version L)"
  shows "sort_key version (filter P L') = sort_key version (filter P L)"
proof (rule sort_key_inj_key_eq)
  show "mset (filter P L') = mset (sort_key version (filter P L))"
    using assms(1) by simp
  from assms have "distinct (map version L')"
    by (metis mset_eq_imp_distinct_iff mset_map)
  then have "inj_on version (set L')" by (simp add: distinct_map)
  then show "inj_on version (set (filter P L'))"
    by (rule inj_on_subset) auto
  show "sorted (map version (sort_key version (filter P L)))" by simp
qed

lemma find_version_Some:
  "find (\<lambda>m. version m = v) L = Some m \<Longrightarrow> version m = v \<and> m \<in> set L"
  by (induction L) (auto split: if_splits)

lemma find_version_None: "find (\<lambda>m. version m = v) L = None \<longleftrightarrow> v \<notin> version ` set L"
  by (induction L) auto

lemma rollbackMigration_eq:
  "rollbackMigration eng db L =
    (let cv = (if ledger_rows db = [] then 0 else Max (applied_versions db));
         db1 = \<lparr>ledger = Some (ledger_rows db), user = user db,
                calls = calls db @ status_calls\<rparr>
     in if cv = 0 then (db1, Inr None)
        else
          (case find (\<lambda>m. version m = cv) L of
             None \<Rightarrow> (db1, Inl (not_found_error cv))
           | Some m \<Rightarrow>
             (case down m of
                None \<Rightarrow> (db1, Inl (no_down_error m))
              | Some d \<Rightarrow>
                if d = [] then (db1, Inl (no_down_error m))
                else
                  (let E = script_effect eng d (Some (ledger_rows db), user db) in
                   case snd E of
                     Some e \<Rightarrow>
                       (\<lparr>ledger = fst (fst E), user = snd (fst E),
                         calls = calls db @ status_calls @ [Exec d]\<rparr>,
                        Inl (rollback_failure m e))
                   | None \<Rightarrow>
                       (case fst (fst E) of
                          None \<Rightarrow>
                            (\<lparr>ledger = None, user = snd (fst E),
                              calls = calls db @ status_calls @ [Exec d, delete_call m]\<rparr>,
                             Inl (rollback_failure m no_such_table))
                        | Some rs1 \<Rightarrow>
                            (\<lparr>ledger = Some (filter (\<lambda>r. fst r \<noteq> version m) rs1),
                              user = snd (fst E),
                              calls = calls db @ status_calls @ [Exec d, delete_call m]\<rparr>,
                             Inr (Some m)))))))"
  by (cases db)
     (simp add: rollbackMigration_def getMigrationStatus_eq Let_def
       execMultiple_eq execute_delete_eq content_def delete_call_def
       split: option.splits)

lemma applied_versions_empty: "applied_versions db = {} \<longleftrightarrow> ledger_rows db = []"
  by (simp add: applied_versions_def)

section \<open>Evaluating the small engine\<close>

lemmas table_eval =
  script_effect_def table_engine_def table_statement_def created_name_def
  MIGRATIONS_TABLE_SQL_def Let_def content_def no_such_table_def syntax_error_def

lemmas insert_eval = insert_row_def in_int64_def unique_failed_def datatype_mismatch_def

lemma show_1: "show_number 1 = ''1''"
  by (simp add: show_number_def show_nat.simps digit_def)

lemma show_2: "show_number 2 = ''2''"
  by (simp add: show_number_def show_nat.simps digit_def)

lemma show_4: "show_number 4 = ''4''"
  by (simp add: show_number_def show_nat.simps digit_def)

lemma status_fresh:
  "getMigrationStatus table_engine fresh_db L =
     (\<lparr>ledger = Some [], user = [], calls = status_calls\<rparr>,
      Inr \<lparr>currentVersion = 0, appliedMigrations = [],
           pendingMigrations = sort_key version L\<rparr>)"
  by (simp add: getMigrationStatus_eq fresh_db_def ledger_rows_def applied_versions_def)

lemma sorted_1_4: "sorted_list_of_set {1, 4 :: int} = [1, 4]"
  using sorted_list_of_set.idem_if_sorted_distinct [of "[1, 4 :: int]"] by simp

lemma versions_unknown: "applied_versions db_unknown = {1, 4}"
  by (auto simp: applied_versions_def ledger_rows_def db_unknown_def)

lemma status_unknown:
  "getMigrationStatus table_engine db_unknown L =
     (db_unknown\<lparr>calls := status_calls\<rparr>,
      Inr \<lparr>currentVersion = 4, appliedMigrations = [1, 4],
           pendingMigrations = sort_key version (filter (\<lambda>m. version m \<notin> {1, 4}) L)\<rparr>)"
  by (simp add: getMigrationStatus_eq versions_unknown sorted_1_4)
     (simp add: db_unknown_def ledger_rows_def)

lemma loadDatabase_cases:
  "loadDatabase w path = (w1, Inr db) \<Longrightarrow>
   files w1 = files w \<and> open_handles w1 = open_handles w + 1 \<and>
   (io w1 = io w @ [NewDatabase] \<or> io w1 = io w @ [ReadFile path, NewDatabase])"
  by (auto simp: loadDatabase_def new_Database_def log_io_def
      split: option.splits if_splits disk_file.splits)

lemma run_bad:
  "runMigrations table_engine fresh_db [mig_bad] =
     (\<lparr>ledger = Some [], user = [''b''], calls = status_calls @ [Exec (up mig_bad)]\<rparr>,
      Inl (Error (''Failed to apply migration 2 (create b): '' @
                  message (syntax_error ''BOGUS''))))"
  by (simp add: runMigrations_eq fresh_db_def ledger_rows_def applied_versions_def
      run_loop_Cons mig_bad_def table_eval apply_failure_def show_2
      del: run_loop.simps)

lemma run_abc:
  "runMigrations table_engine fresh_db [mig_c, mig_b, mig_a] =
     (db_abc, Inr [mig_a, mig_b, mig_c])"
  by (simp add: runMigrations_eq fresh_db_def ledger_rows_def applied_versions_def
      mig_a_def mig_b_def mig_c_def run_loop_Cons table_eval insert_eval ledger_entry_def
      db_abc_def del: run_loop.simps(2))

lemma keeps_a: "keeps_ledger table_engine (up mig_a)"
  by (simp add: keeps_ledger_def mig_a_def table_eval)

lemma keeps_b: "keeps_ledger table_engine (up mig_b)"
  by (simp add: keeps_ledger_def mig_b_def table_eval)

lemma keeps_c: "keeps_ledger table_engine (up mig_c)"
  by (simp add: keeps_ledger_def mig_c_def table_eval)

lemma keeps_bad: "keeps_ledger table_engine (up mig_bad)"
  by (simp add: keeps_ledger_def mig_bad_def table_eval)

lemma run_a_wipe_bad:
  "runMigrations table_engine fresh_db [mig_a, mig_wipe_bad] =
     (\<lparr>ledger = Some [], user = [''a''],
       calls = status_calls @ apply_calls mig_a @ [Exec (up mig_wipe_bad)]\<rparr>,
      Inl (Error (''Failed to apply migration 2 (wipe): '' @ message (syntax_error ''BOGUS''))))"
  by (simp add: runMigrations_eq fresh_db_def ledger_rows_def applied_versions_def
      mig_a_def mig_wipe_bad_def run_loop_Cons table_eval insert_eval ledger_entry_def
      apply_failure_def show_2 del: run_loop.simps(2))

lemma run_a_drop:
  "runMigrations table_engine fresh_db [mig_a, mig_drop] =
     (\<lparr>ledger = None, user = [''a''],
       calls = status_calls @ apply_calls mig_a @ apply_calls mig_drop\<rparr>,
      Inl (Error ''Failed to apply migration 2 (drop ledger): no such table: _migrations''))"
  by (simp add: runMigrations_eq fresh_db_def ledger_rows_def applied_versions_def
      mig_a_def mig_drop_def run_loop_Cons table_eval insert_eval ledger_entry_def
      apply_failure_def show_2 del: run_loop.simps(2))

lemma run_a_wipe:
  "runMigrations table_engine fresh_db [mig_a, mig_wipe] =
     (\<lparr>ledger = Some [(2, ''wipe'')], user = [''a''],
       calls = status_calls @ apply_calls mig_a @ apply_calls mig_wipe\<rparr>,
      Inr [mig_a, mig_wipe])"
  by (simp add: runMigrations_eq fresh_db_def ledger_rows_def applied_versions_def
      mig_a_def mig_wipe_def run_loop_Cons table_eval insert_eval ledger_entry_def
      del: run_loop.simps(2))

lemma run_a_wipe_again:
  "runMigrations table_engine
     \<lparr>ledger = Some [(2, ''wipe'')], user = [''a''],
      calls = status_calls @ apply_calls mig_a @ apply_calls mig_wipe\<rparr> [mig_a, mig_wipe] =
     (\<lparr>ledger = Some [(2, ''wipe'')], user = [''a''],
       calls = status_calls @ apply_calls mig_a @ apply_calls mig_wipe @ status_calls @
               [Exec (up mig_a)]\<rparr>,
      Inl (Error ''Failed to apply migration 1 (create a): table a already exists''))"
  by (simp add: runMigrations_eq ledger_rows_def applied_versions_def
      mig_a_def mig_wipe_def run_loop_Cons table_eval apply_failure_def show_1
      del: run_loop.simps(2))

lemma run_a_z:
  "runMigrations table_engine fresh_db [mig_a, mig_z] =
     (\<lparr>ledger = Some [(1, ''create a'')], user = [''a'', ''z''],
       calls = status_calls @ apply_calls mig_a @ apply_calls mig_z\<rparr>,
      Inl (Error (''Failed to apply migration 1 (create z): '' @
                  ''UNIQUE constraint failed: _migrations.version'')))"
  by (simp add: runMigrations_eq fresh_db_def ledger_rows_def applied_versions_def
      mig_a_def mig_z_def run_loop_Cons table_eval insert_eval ledger_entry_def
      apply_failure_def show_1 del: run_loop.simps(2))

lemma run_z_a:
  "runMigrations table_engine fresh_db [mig_z, mig_a] =
     (\<lparr>ledger = Some [(1, ''create z'')], user = [''z'', ''a''],
       calls = status_calls @ apply_calls mig_z @ apply_calls mig_a\<rparr>,
      Inl (Error (''Failed to apply migration 1 (create a): '' @
                  ''UNIQUE constraint failed: _migrations.version'')))"
  by (simp add: runMigrations_eq fresh_db_def ledger_rows_def applied_versions_def
      mig_a_def mig_z_def run_loop_Cons table_eval insert_eval ledger_entry_def
      apply_failure_def show_1 del: run_loop.simps(2))

lemma run_a_s:
  "runMigrations table_engine fresh_db [mig_a, mig_s] =
     (\<lparr>ledger = Some [(1, ''create a''), (2, ''create s'')], user = [''a'', ''s''],
       calls = status_calls @ apply_calls mig_a @ apply_calls mig_s\<rparr>,
      Inr [mig_a, mig_s])"
  by (simp add: runMigrations_eq fresh_db_def ledger_rows_def applied_versions_def
      mig_a_def mig_s_def run_loop_Cons table_eval insert_eval ledger_entry_def
      del: run_loop.simps(2))

lemma rollback_a_s:
  "rollbackMigration table_engine
     \<lparr>ledger = Some [(1, ''create a''), (2, ''create s'')], user = [''a'', ''s''],
      calls = status_calls @ apply_calls mig_a @ apply_calls mig_s\<rparr> [mig_a, mig_s] =
     (\<lparr>ledger = Some [], user = [''a''],
       calls = status_calls @ apply_calls mig_a @ apply_calls mig_s @ status_calls @
               [Exec ''DROP TABLE s;DELETE FROM _migrations'', delete_call mig_s]\<rparr>,
      Inr (Some mig_s))"
proof -
  have v: "applied_versions \<lparr>ledger = Some [(1, ''create a''), (2, ''create s'')],
      user = [''a'', ''s''],
      calls = status_calls @ apply_calls mig_a @ apply_calls mig_s\<rparr> = {1, 2}"
    by (auto simp: applied_versions_def ledger_rows_def)
  show ?thesis
    by (simp add: rollbackMigration_eq v)
       (simp add: ledger_rows_def mig_a_def mig_s_def table_eval)
qed

lemma rollback_fresh:
  "rollbackMigration table_engine fresh_db [mig_a, mig_b, mig_c] =
     (\<lparr>ledger = Some [], user = [], calls = status_calls\<rparr>, Inr None)"
  by (simp add: rollbackMigration_eq Let_def fresh_db_def ledger_rows_def)

lemma versions_abc: "applied_versions db_abc = {1, 2, 3}"
  by (auto simp: applied_versions_def ledger_rows_def db_abc_def)

lemma versions_ab: "applied_versions db_ab = {1, 2}"
  by (auto simp: applied_versions_def ledger_rows_def db_ab_def)

lemma versions_a: "applied_versions db_a = {1}"
  by (auto simp: applied_versions_def ledger_rows_def db_a_def)

lemma rollback_abc:
  "rollbackMigration table_engine db_abc [mig_a, mig_b, mig_c] = (db_ab, Inr (Some mig_c))"
  by (simp add: rollbackMigration_eq versions_abc)
     (simp add: db_abc_def db_ab_def ledger_rows_def mig_a_def mig_b_def mig_c_def table_eval
        delete_call_def)

lemma rollback_ab:
  "rollbackMigration table_engine db_ab [mig_a, mig_b, mig_c] = (db_a, Inr (Some mig_b))"
  by (simp add: rollbackMigration_eq versions_ab)
     (simp add: db_ab_def db_a_def ledger_rows_def mig_a_def mig_b_def mig_c_def table_eval
        delete_call_def)

lemma keeps_drop_c: "keeps_ledger table_engine ''DROP TABLE c''"
  by (simp add: keeps_ledger_def table_eval)

lemma keeps_drop_b: "keeps_ledger table_engine ''DROP TABLE b''"
  by (simp add: keeps_ledger_def table_eval)

section \<open>Claims\<close>

subsection \<open>C1: runMigrations fails fast\<close>

text \<open>
  Claim C1 says that, when a pending migration raises, the pending migrations before it
  remain applied with their ledger entries. The call undoes nothing, but the script
  that fails is caller SQL run on the whole database, and it may have changed the ledger
  table before it raised. Here \<open>mig_a\<close> is applied and recorded; the script of
  \<open>mig_wipe_bad\<close> then deletes the rows of \<open>_migrations\<close> and fails on its second statement.
  The call raises, table \<open>a\<close> exists, and the ledger has no row for version 1.
\<close>

theorem fail_fast_ledger_counterexample:
  "snd (runMigrations table_engine fresh_db [mig_a, mig_wipe_bad]) =
     Inl (Error (''Failed to apply migration 2 (wipe): '' @ message (syntax_error ''BOGUS''))) \<and>
   calls (fst (runMigrations table_engine fresh_db [mig_a, mig_wipe_bad])) =
     status_calls @ apply_calls mig_a @ [Exec (up mig_wipe_bad)] \<and>
   user (fst (runMigrations table_engine fresh_db [mig_a, mig_wipe_bad])) = [''a''] \<and>
   ledger (fst (runMigrations table_engine fresh_db [mig_a, mig_wipe_bad])) = Some [] \<and>
   version mig_a \<notin> applied_versions (fst (runMigrations table_engine fresh_db [mig_a, mig_wipe_bad]))"
  by (simp add: run_a_wipe_bad applied_versions_def ledger_rows_def)

text \<open>
  Claim C1 as the code has it. Let the pending migrations of the list \<open>L\<close> be
  \<open>ps @ pk # rest\<close>, in ascending order of version, let the migrations \<open>ps\<close> be applied
  without error, and let the \<open>up\<close> script of \<open>pk\<close>, or the insertion of its ledger entry,
  raise \<open>cause\<close>. Then \<open>runMigrations\<close> stops there: it raises an error whose message holds
  the version and the description of \<open>pk\<close> and the message of \<open>cause\<close>, and it leaves the
  database as the failing call left it. The engine has been called for the status, for
  each migration of \<open>ps\<close> (its script, then its INSERT) and for \<open>pk\<close>, and for nothing
  else: none of \<open>rest\<close> is attempted and nothing is undone. If the \<open>up\<close> scripts of \<open>ps\<close> and
  of \<open>pk\<close> leave the ledger table as they find it, the ledger holds the rows it had before
  followed by the entries of \<open>ps\<close>.
\<close>

theorem runMigrations_fail_fast:
  assumes st: "getMigrationStatus eng db L = (db1, Inr st)"
    and pend: "pendingMigrations st = ps @ pk # rest"
    and pre: "run_loop eng ps [] db1 = (db2, Inr applied)"
    and fail: "execMultiple eng db2 (up pk) = (db3, Some cause) \<or>
               (\<exists>dbm. execMultiple eng db2 (up pk) = (dbm, None) \<and>
                      execute eng dbm INSERT_MIGRATION_SQL
                        [SqlNumber (version pk), SqlText (description pk)] = (db3, Inl cause))"
  shows "runMigrations eng db L =
           (db3, Inl (Error (''Failed to apply migration '' @ show_number (version pk) @
                             '' ('' @ description pk @ ''): '' @ message cause))) \<and>
         applied = ps \<and>
         (calls db3 = calls db @ status_calls @ concat (map apply_calls ps) @ [Exec (up pk)] \<or>
          calls db3 = calls db @ status_calls @ concat (map apply_calls ps) @ apply_calls pk) \<and>
         ((\<forall>m\<in>set (ps @ [pk]). keeps_ledger eng (up m)) \<longrightarrow>
            ledger db3 = Some (ledger_rows db @ map ledger_entry ps))"
proof -
  from st have db1: "db1 = db\<lparr>calls := calls db @ status_calls, ledger := Some (ledger_rows db)\<rparr>"
    by (simp add: getMigrationStatus_eq)
  then have l1: "ledger db1 = Some (ledger_rows db)" by simp
  from run_loop_outcome [OF pre] obtain applied' rest' where
    sp: "ps = applied' @ rest'"
    and out: "Inr applied = (Inr ([] @ ps) :: error + migration list) \<and> rest' = [] \<and>
              calls db2 = calls db1 @ concat (map apply_calls applied')"
    and led: "\<forall>rs. ledger db1 = Some rs \<and> (\<forall>m\<in>set ps. keeps_ledger eng (up m)) \<longrightarrow>
              ledger db2 = Some (rs @ map ledger_entry applied')"
    by blast
  from sp out have ap: "applied = ps" and c2: "calls db2 = calls db1 @ concat (map apply_calls ps)"
    and a': "applied' = ps"
    by simp_all
  from fail have head: "run_loop eng (pk # rest) applied db2 = (db3, Inl (apply_failure pk cause))"
    by auto
  have "runMigrations eng db L = run_loop eng (ps @ pk # rest) [] db1"
    by (simp add: runMigrations_def st pend)
  also have "\<dots> = (db3, Inl (apply_failure pk cause))"
    by (simp add: run_loop_append pre head del: run_loop.simps)
  finally have res: "runMigrations eng db L = (db3, Inl (apply_failure pk cause))" .
  from fail have c3: "calls db3 = calls db2 @ [Exec (up pk)] \<or> calls db3 = calls db2 @ apply_calls pk"
    by (auto simp: execMultiple_eq execute_insert_eq apply_calls_def insert_call_def
        split: sum.splits)
  have l3: "ledger db3 = Some (ledger_rows db @ map ledger_entry ps)"
    if k: "\<forall>m\<in>set (ps @ [pk]). keeps_ledger eng (up m)"
  proof -
    from k led l1 a' have l2: "ledger db2 = Some (ledger_rows db @ map ledger_entry ps)"
      by simp
    from k have "keeps_ledger eng (up pk)" by simp
    from keeps_ledgerD [OF this l2]
    have e: "fst (fst (script_effect eng (up pk) (content db2))) =
             Some (ledger_rows db @ map ledger_entry ps)" .
    from fail show ?thesis
      by (auto simp: execMultiple_eq execute_insert_eq e split: sum.splits)
  qed
  from res ap c3 l3 show ?thesis
    by (auto simp add: apply_failure_def c2 db1)
qed

text \<open>
  The case of the specification: of three migrations the second has a script whose
  second statement is invalid. The first is applied, the second raises, the third is
  not attempted. In the second run the script succeeds and the INSERT raises: the script
  has dropped the ledger table.
\<close>

theorem runMigrations_fail_fast_witness:
  "getMigrationStatus table_engine fresh_db [mig_c, mig_bad, mig_a] =
     (\<lparr>ledger = Some [], user = [], calls = status_calls\<rparr>,
      Inr \<lparr>currentVersion = 0, appliedMigrations = [],
           pendingMigrations = [mig_a] @ mig_bad # [mig_c]\<rparr>) \<and>
   run_loop table_engine [mig_a] [] \<lparr>ledger = Some [], user = [], calls = status_calls\<rparr> =
     (\<lparr>ledger = Some [(1, ''create a'')], user = [''a''],
       calls = status_calls @ apply_calls mig_a\<rparr>, Inr [mig_a]) \<and>
   execMultiple table_engine
     \<lparr>ledger = Some [(1, ''create a'')], user = [''a''],
      calls = status_calls @ apply_calls mig_a\<rparr> (up mig_bad) =
     (\<lparr>ledger = Some [(1, ''create a'')], user = [''a'', ''b''],
       calls = status_calls @ apply_calls mig_a @ [Exec (up mig_bad)]\<rparr>,
      Some (syntax_error ''BOGUS'')) \<and>
   keeps_ledger table_engine (up mig_a) \<and> keeps_ledger table_engine (up mig_bad) \<and>
   runMigrations table_engine fresh_db [mig_c, mig_bad, mig_a] =
     (\<lparr>ledger = Some [(1, ''create a'')], user = [''a'', ''b''],
       calls = status_calls @ apply_calls mig_a @ [Exec (up mig_bad)]\<rparr>,
      Inl (Error (''Failed to apply migration 2 (create b): '' @
                  message (syntax_error ''BOGUS'')))) \<and>
   execute table_engine
     \<lparr>ledger = None, user = [''a''],
      calls = status_calls @ apply_calls mig_a @ [Exec (up mig_drop)]\<rparr>
     INSERT_MIGRATION_SQL [SqlNumber (version mig_drop), SqlText (description mig_drop)] =
     (\<lparr>ledger = None, user = [''a''],
       calls = status_calls @ apply_calls mig_a @ apply_calls mig_drop\<rparr>,
      Inl (Error ''no such table: _migrations'')) \<and>
   runMigrations table_engine fresh_db [mig_a, mig_drop] =
     (\<lparr>ledger = None, user = [''a''],
       calls = status_calls @ apply_calls mig_a @ apply_calls mig_drop\<rparr>,
      Inl (Error ''Failed to apply migration 2 (drop ledger): no such table: _migrations''))"
proof -
  let ?db1 = "\<lparr>ledger = Some [], user = [] :: string list, calls = status_calls\<rparr>"
  let ?db2 = "\<lparr>ledger = Some [(1, ''create a'')], user = [''a''],
               calls = status_calls @ apply_calls mig_a\<rparr>"
  let ?db3 = "\<lparr>ledger = Some [(1, ''create a'')], user = [''a'', ''b''],
       calls = status_calls @ apply_calls mig_a @ [Exec (up mig_bad)]\<rparr>"
  have st: "getMigrationStatus table_engine fresh_db [mig_c, mig_bad, mig_a] =
     (?db1, Inr \<lparr>currentVersion = 0, appliedMigrations = [],
           pendingMigrations = [mig_a] @ mig_bad # [mig_c]\<rparr>)"
    by (simp add: status_fresh mig_a_def mig_bad_def mig_c_def)
  have pre: "run_loop table_engine [mig_a] [] ?db1 = (?db2, Inr [mig_a])"
    by (simp add: run_loop_Cons mig_a_def table_eval insert_eval ledger_entry_def
        del: run_loop.simps(2))
  have fail: "execMultiple table_engine ?db2 (up mig_bad) = (?db3, Some (syntax_error ''BOGUS''))"
    by (simp add: execMultiple_eq mig_bad_def table_eval)
  have k: "\<forall>m\<in>set ([mig_a] @ [mig_bad]). keeps_ledger table_engine (up m)"
    by (simp add: keeps_a keeps_bad)
  from runMigrations_fail_fast [OF st _ pre disjI1 [OF fail], of "[mig_c]"] k
  have one: "runMigrations table_engine fresh_db [mig_c, mig_bad, mig_a] =
     (?db3, Inl (Error (''Failed to apply migration 2 (create b): '' @
                        message (syntax_error ''BOGUS''))))"
    by (simp add: mig_bad_def show_2)
  let ?em = "\<lparr>ledger = None, user = [''a''],
               calls = status_calls @ apply_calls mig_a @ [Exec (up mig_drop)]\<rparr>"
  let ?e3 = "\<lparr>ledger = None, user = [''a''],
               calls = status_calls @ apply_calls mig_a @ apply_calls mig_drop\<rparr>"
  have st': "getMigrationStatus table_engine fresh_db [mig_a, mig_drop] =
     (?db1, Inr \<lparr>currentVersion = 0, appliedMigrations = [],
           pendingMigrations = [mig_a] @ mig_drop # []\<rparr>)"
    by (simp add: status_fresh mig_a_def mig_drop_def)
  have up': "execMultiple table_engine ?db2 (up mig_drop) = (?em, None)"
    by (simp add: execMultiple_eq mig_drop_def table_eval)
  have ins': "execute table_engine ?em INSERT_MIGRATION_SQL
      [SqlNumber (version mig_drop), SqlText (description mig_drop)] =
      (?e3, Inl (Error ''no such table: _migrations''))"
    by (simp add: execute_insert_eq insert_row_def no_such_table_def mig_drop_def
        apply_calls_def insert_call_def)
  from up' ins' have fail': "execMultiple table_engine ?db2 (up mig_drop) =
        (?e3, Some (Error ''no such table: _migrations'')) \<or>
      (\<exists>dbm. execMultiple table_engine ?db2 (up mig_drop) = (dbm, None) \<and>
         execute table_engine dbm INSERT_MIGRATION_SQL
           [SqlNumber (version mig_drop), SqlText (description mig_drop)] =
           (?e3, Inl (Error ''no such table: _migrations'')))"
    by blast
  from runMigrations_fail_fast [OF st' _ pre fail', of "[]"]
  have two: "runMigrations table_engine fresh_db [mig_a, mig_drop] =
     (?e3, Inl (Error ''Failed to apply migration 2 (drop ledger): no such table: _migrations''))"
    by (simp add: mig_drop_def show_2)
  from st pre fail keeps_a keeps_bad one ins' two show ?thesis by blast
qed

subsection \<open>C2: rollbackMigration reverts one version\<close>

text \<open>
  Claim C2 says that on an empty ledger the call mutates nothing, and that otherwise it
  deletes only the ledger entry of the maximum applied version. On a database without
  the table \<open>_migrations\<close> the status computation of the call creates it. And the \<open>down\<close>
  script is caller SQL run on the whole database: after \<open>mig_a\<close> and \<open>mig_s\<close> are applied,
  one call runs the \<open>down\<close> script of \<open>mig_s\<close>, which also deletes the rows of
  \<open>_migrations\<close>, and the entry of version 1 is gone with that of version 2.
\<close>

theorem rollback_counterexample:
  "ledger fresh_db = None \<and>
   rollbackMigration table_engine fresh_db [mig_a, mig_b, mig_c] =
     (\<lparr>ledger = Some [], user = [], calls = status_calls\<rparr>, Inr None) \<and>
   runMigrations table_engine fresh_db [mig_a, mig_s] =
     (\<lparr>ledger = Some [(1, ''create a''), (2, ''create s'')], user = [''a'', ''s''],
       calls = status_calls @ apply_calls mig_a @ apply_calls mig_s\<rparr>,
      Inr [mig_a, mig_s]) \<and>
   snd (rollbackMigration table_engine
     \<lparr>ledger = Some [(1, ''create a''), (2, ''create s'')], user = [''a'', ''s''],
      calls = status_calls @ apply_calls mig_a @ apply_calls mig_s\<rparr> [mig_a, mig_s]) =
     Inr (Some mig_s) \<and>
   ledger (fst (rollbackMigration table_engine
     \<lparr>ledger = Some [(1, ''create a''), (2, ''create s'')], user = [''a'', ''s''],
      calls = status_calls @ apply_calls mig_a @ apply_calls mig_s\<rparr> [mig_a, mig_s])) =
     Some []"
  by (simp add: rollback_fresh run_a_s rollback_a_s) (simp add: fresh_db_def)

text \<open>
  Claim C2 as the code has it. Whatever its outcome, a call of \<open>rollbackMigration\<close>
  calls the engine for the status and then for at most one \<open>down\<close> script and one DELETE,
  both of the declared migration whose version is the maximum applied version. When no
  script was run, the rest of the database and the ledger rows are as before, the ledger
  table being created if it was absent; this is the case when the ledger is empty or the
  maximum is 0, and the call then returns the none-indicator. When it raises after the
  script was run, the database is as the script left it: the call itself has deleted
  nothing. When it returns a migration \<open>m\<close>, that is the declared migration of the
  maximum applied version, and the ledger is what the \<open>down\<close> script of \<open>m\<close> left of
  it without the rows of that version; if that script leaves the ledger table as it finds
  it, the rows of that version and no other are gone, and the applied versions are the
  former ones without the maximum, so that the current version falls back to the next
  lower one. It does return \<open>m\<close> whenever the ledger is not empty, the maximum is not 0,
  \<open>m\<close> has a non-empty \<open>down\<close> script, and that script succeeds and leaves a ledger table.
\<close>

theorem rollbackMigration_single_step:
  assumes "rollbackMigration eng db L = (db', r)"
  shows "(calls db' = calls db @ status_calls \<or>
          (\<exists>m d. find (\<lambda>m'. version m' = Max (applied_versions db)) L = Some m \<and>
             down m = Some d \<and>
             (calls db' = calls db @ status_calls @ [Exec d] \<or>
              calls db' = calls db @ status_calls @ [Exec d, delete_call m]))) \<and>
         (calls db' = calls db @ status_calls \<longrightarrow>
            ledger db' = Some (ledger_rows db) \<and> user db' = user db) \<and>
         (applied_versions db = {} \<or> Max (applied_versions db) = 0 \<longrightarrow>
            r = Inr None \<and> calls db' = calls db @ status_calls) \<and>
         (\<forall>e. r = Inl e \<and> calls db' \<noteq> calls db @ status_calls \<longrightarrow>
            (\<exists>m d. find (\<lambda>m'. version m' = Max (applied_versions db)) L = Some m \<and>
               down m = Some d \<and>
               content db' = fst (script_effect eng d (Some (ledger_rows db), user db)))) \<and>
         (\<forall>m. r = Inr (Some m) \<longrightarrow>
            applied_versions db \<noteq> {} \<and> version m = Max (applied_versions db) \<and>
            find (\<lambda>m'. version m' = Max (applied_versions db)) L = Some m \<and>
            (\<exists>d rs1. down m = Some d \<and>
               script_effect eng d (Some (ledger_rows db), user db) =
                 ((Some rs1, user db'), None) \<and>
               ledger db' = Some (filter (\<lambda>r. fst r \<noteq> version m) rs1) \<and>
               calls db' = calls db @ status_calls @ [Exec d, delete_call m] \<and>
               (keeps_ledger eng d \<longrightarrow>
                  ledger db' = Some (filter (\<lambda>r. fst r \<noteq> version m) (ledger_rows db)) \<and>
                  applied_versions db' =
                    applied_versions db - {Max (applied_versions db)}))) \<and>
         (\<forall>m d rs1 u1. applied_versions db \<noteq> {} \<and> Max (applied_versions db) \<noteq> 0 \<and>
            find (\<lambda>m'. version m' = Max (applied_versions db)) L = Some m \<and>
            down m = Some d \<and> d \<noteq> [] \<and>
            script_effect eng d (Some (ledger_rows db), user db) = ((Some rs1, u1), None) \<longrightarrow>
            r = Inr (Some m))"
proof -
  let ?cv = "Max (applied_versions db)"
  let ?db1 = "\<lparr>ledger = Some (ledger_rows db), user = user db,
                calls = calls db @ status_calls\<rparr>"
  show ?thesis
  proof (cases "ledger_rows db = [] \<or> ?cv = 0")
    case True
    then have cv0: "(if ledger_rows db = [] then 0 else ?cv) = 0" by auto
    from assms have "r = Inr None \<and> db' = ?db1"
      unfolding rollbackMigration_eq Let_def cv0 by auto
    with True show ?thesis by (auto simp: applied_versions_empty)
  next
    case False
    then have ne: "ledger_rows db \<noteq> []" and cv: "?cv \<noteq> 0" by auto
    then have ave: "applied_versions db \<noteq> {}" by (simp add: applied_versions_empty)
    show ?thesis
    proof (cases "find (\<lambda>m. version m = ?cv) L")
      case None
      with assms ne cv have "r = Inl (not_found_error ?cv) \<and> db' = ?db1"
        by (auto simp: rollbackMigration_eq Let_def)
      with None ave cv show ?thesis by auto
    next
      case (Some m)
      from find_version_Some [OF Some] have vm: "version m = ?cv" by simp
      show ?thesis
      proof (cases "down m = None \<or> down m = Some []")
        case True
        with assms ne cv Some have "r = Inl (no_down_error m) \<and> db' = ?db1"
          by (auto simp: rollbackMigration_eq Let_def)
        with True Some ave cv show ?thesis by auto
      next
        case False
        then obtain d where d: "down m = Some d" "d \<noteq> []" by auto
        let ?E = "script_effect eng d (Some (ledger_rows db), user db)"
        show ?thesis
        proof (cases "snd ?E")
          case (Some e)
          with assms ne cv \<open>find (\<lambda>m. version m = ?cv) L = Some m\<close> d
          have "r = Inl (rollback_failure m e)"
            and "db' = \<lparr>ledger = fst (fst ?E), user = snd (fst ?E),
                         calls = calls db @ status_calls @ [Exec d]\<rparr>"
            by (auto simp: rollbackMigration_eq Let_def)
          with Some \<open>find (\<lambda>m. version m = ?cv) L = Some m\<close> d ave cv show ?thesis
            by (auto simp: content_def)
        next
          case None
          show ?thesis
          proof (cases "fst (fst ?E)")
            case nol: None
            with None assms ne cv \<open>find (\<lambda>m. version m = ?cv) L = Some m\<close> d
            have "r = Inl (rollback_failure m no_such_table)"
              and "db' = \<lparr>ledger = None, user = snd (fst ?E),
                         calls = calls db @ status_calls @ [Exec d, delete_call m]\<rparr>"
              by (auto simp: rollbackMigration_eq Let_def)
            with None nol \<open>find (\<lambda>m. version m = ?cv) L = Some m\<close> d ave cv show ?thesis
              by (auto simp: content_def prod_eq_iff)
          next
            case (Some rs1)
            with None assms ne cv \<open>find (\<lambda>m. version m = ?cv) L = Some m\<close> d
            have r: "r = Inr (Some m)"
              and db': "db' = \<lparr>ledger = Some (filter (\<lambda>r. fst r \<noteq> version m) rs1),
                         user = snd (fst ?E),
                         calls = calls db @ status_calls @ [Exec d, delete_call m]\<rparr>"
              by (auto simp: rollbackMigration_eq Let_def)
            from db' have c: "calls db' = calls db @ status_calls @ [Exec d, delete_call m]"
              and l: "ledger db' = Some (filter (\<lambda>r. fst r \<noteq> version m) rs1)"
              and u: "user db' = snd (fst ?E)"
              by simp_all
            have E: "?E = ((Some rs1, user db'), None)"
              using None Some u by (simp add: prod_eq_iff)
            have k: "ledger db' = Some (filter (\<lambda>r. fst r \<noteq> version m) (ledger_rows db)) \<and>
                     applied_versions db' = applied_versions db - {?cv}"
              if "keeps_ledger eng d"
            proof -
              from that Some have "rs1 = ledger_rows db"
                by (simp add: keeps_ledger_def)
              with l have l': "ledger db' =
                  Some (filter (\<lambda>r. fst r \<noteq> version m) (ledger_rows db))"
                by simp
              then have "applied_versions db' = applied_versions db - {?cv}"
                by (auto simp: applied_versions_def ledger_rows_def vm)
              with l' show ?thesis by simp
            qed
            from r c l E k \<open>find (\<lambda>m. version m = ?cv) L = Some m\<close> d ave cv vm
            show ?thesis by auto
          qed
        qed
      qed
    qed
  qed
qed

text \<open>
  After the three migrations are applied, one call reverts version 3 only and a second
  call version 2 only; on the fresh database the call returns the none-indicator.
\<close>

theorem rollbackMigration_single_step_witness:
  "runMigrations table_engine fresh_db [mig_c, mig_b, mig_a] =
     (db_abc, Inr [mig_a, mig_b, mig_c]) \<and>
   rollbackMigration table_engine db_abc [mig_a, mig_b, mig_c] = (db_ab, Inr (Some mig_c)) \<and>
   down mig_c = Some ''DROP TABLE c'' \<and> keeps_ledger table_engine ''DROP TABLE c'' \<and>
   version mig_c = Max (applied_versions db_abc) \<and>
   applied_versions db_ab = applied_versions db_abc - {3} \<and>
   user db_ab = [''a'', ''b''] \<and>
   rollbackMigration table_engine db_ab [mig_a, mig_b, mig_c] = (db_a, Inr (Some mig_b)) \<and>
   down mig_b = Some ''DROP TABLE b'' \<and> keeps_ledger table_engine ''DROP TABLE b'' \<and>
   applied_versions db_a = applied_versions db_ab - {2} \<and>
   user db_a = [''a''] \<and>
   applied_versions fresh_db = {} \<and>
   rollbackMigration table_engine fresh_db [mig_a, mig_b, mig_c] =
     (\<lparr>ledger = Some [], user = [], calls = status_calls\<rparr>, Inr None)"
proof -
  have m3: "Max (applied_versions db_abc) = 3" by (simp add: versions_abc)
  have m2: "Max (applied_versions db_ab) = 2" by (simp add: versions_ab)
  have dc: "down mig_c = Some ''DROP TABLE c''" by (simp add: mig_c_def)
  have db: "down mig_b = Some ''DROP TABLE b''" by (simp add: mig_b_def)
  from rollbackMigration_single_step [OF rollback_abc] dc keeps_drop_c
  have 1: "version mig_c = Max (applied_versions db_abc)"
    and 2: "applied_versions db_ab = applied_versions db_abc - {3}"
    by (auto simp: m3)
  from rollbackMigration_single_step [OF rollback_ab] db keeps_drop_b
  have 3: "applied_versions db_a = applied_versions db_ab - {2}"
    by (auto simp: m2)
  have e: "applied_versions fresh_db = {}"
    by (simp add: applied_versions_def ledger_rows_def fresh_db_def)
  from rollbackMigration_single_step [OF rollback_fresh] e
  have 4: "snd (rollbackMigration table_engine fresh_db [mig_a, mig_b, mig_c]) = Inr None"
    by (simp add: rollback_fresh)
  from 1 2 3 4 e dc db keeps_drop_c keeps_drop_b run_abc rollback_abc rollback_ab rollback_fresh
  show ?thesis
    by (simp add: db_ab_def db_a_def)
qed

subsection \<open>C3: a migration and its ledger entry\<close>




subsection \<open>C4: the status computation\<close>

text \<open>
  Claim C4. For every database and every declared list \<open>L\<close>, \<open>getMigrationStatus\<close> returns
  a status (it does not raise): \<open>currentVersion\<close> is the maximum applied version, or 0 on an
  empty ledger; \<open>appliedMigrations\<close> is the ascending list of the applied versions;
  \<open>pendingMigrations\<close> holds exactly the members of \<open>L\<close> whose version is not applied,
  sorted by version (stably). On an empty ledger the pending list is \<open>L\<close> sorted by version
  and the current version is 0.
\<close>

theorem getMigrationStatus_spec:
  "\<exists>db1 st. getMigrationStatus eng db L = (db1, Inr st) \<and>
     currentVersion st = (if applied_versions db = {} then 0 else Max (applied_versions db)) \<and>
     appliedMigrations st = sorted_list_of_set (applied_versions db) \<and>
     pendingMigrations st =
       sort_key version (filter (\<lambda>m. version m \<notin> applied_versions db) L) \<and>
     sorted (map version (pendingMigrations st)) \<and>
     mset (pendingMigrations st) =
       filter_mset (\<lambda>m. version m \<notin> applied_versions db) (mset L) \<and>
     (applied_versions db = {} \<longrightarrow>
        pendingMigrations st = sort_key version L \<and> currentVersion st = 0)"
  by (simp add: getMigrationStatus_eq applied_versions_def)

text \<open>
  A ledger with versions 3 and 1 against a list declared in descending order, and the
  fresh database against the same list.
\<close>

theorem getMigrationStatus_spec_witness:
  "applied_versions (fresh_db\<lparr>ledger := Some [(3, ''create c''), (1, ''create a'')]\<rparr>) = {1, 3} \<and>
   snd (getMigrationStatus table_engine
          (fresh_db\<lparr>ledger := Some [(3, ''create c''), (1, ''create a'')]\<rparr>) [mig_c, mig_b, mig_a]) =
     Inr \<lparr>currentVersion = 3, appliedMigrations = [1, 3], pendingMigrations = [mig_b]\<rparr> \<and>
   applied_versions fresh_db = {} \<and>
   snd (getMigrationStatus table_engine fresh_db [mig_c, mig_b, mig_a]) =
     Inr \<lparr>currentVersion = 0, appliedMigrations = [], pendingMigrations = [mig_a, mig_b, mig_c]\<rparr>"
proof -
  let ?db = "fresh_db\<lparr>ledger := Some [(3, ''create c''), (1, ''create a'')]\<rparr>"
  have a: "applied_versions ?db = {1, 3}"
    by (auto simp: applied_versions_def ledger_rows_def)
  have b: "applied_versions fresh_db = {}"
    by (simp add: applied_versions_def ledger_rows_def fresh_db_def)
  have s: "sorted_list_of_set {1, 3 :: int} = [1, 3]"
    using sorted_list_of_set.idem_if_sorted_distinct [of "[1, 3 :: int]"] by simp
  from getMigrationStatus_spec [of table_engine ?db "[mig_c, mig_b, mig_a]"]
  obtain db1 st where 1: "getMigrationStatus table_engine ?db [mig_c, mig_b, mig_a] = (db1, Inr st)"
    and "currentVersion st = 3" and "appliedMigrations st = [1, 3]"
    and "pendingMigrations st = [mig_b]"
    unfolding a by (auto simp: s mig_a_def mig_b_def mig_c_def)
  then have c: "snd (getMigrationStatus table_engine ?db [mig_c, mig_b, mig_a]) =
     Inr \<lparr>currentVersion = 3, appliedMigrations = [1, 3], pendingMigrations = [mig_b]\<rparr>"
    by simp
  from getMigrationStatus_spec [of table_engine fresh_db "[mig_c, mig_b, mig_a]"]
  obtain db2 st2 where "getMigrationStatus table_engine fresh_db [mig_c, mig_b, mig_a] = (db2, Inr st2)"
    and "currentVersion st2 = 0" and "appliedMigrations st2 = []"
    and "pendingMigrations st2 = [mig_a, mig_b, mig_c]"
    unfolding b by (auto simp: mig_a_def mig_b_def mig_c_def)
  then have d: "snd (getMigrationStatus table_engine fresh_db [mig_c, mig_b, mig_a]) =
     Inr \<lparr>currentVersion = 0, appliedMigrations = [], pendingMigrations = [mig_a, mig_b, mig_c]\<rparr>"
    by simp
  from a b c d show ?thesis by blast
qed

subsection \<open>C5: a second run of runMigrations\<close>

text \<open>
  Claim C5 says that after a run that returned, a second run on the same list applies
  nothing and returns the empty list. The ledger is a table of the database that the
  scripts run on. Here the first run applies \<open>mig_a\<close> and \<open>mig_wipe\<close>, whose script deletes
  the rows of \<open>_migrations\<close>, and returns both; the ledger holds version 2 only. The
  second run finds version 1 pending, runs the script of \<open>mig_a\<close> again, and raises.
\<close>

theorem second_run_counterexample:
  "runMigrations table_engine fresh_db [mig_a, mig_wipe] =
     (\<lparr>ledger = Some [(2, ''wipe'')], user = [''a''],
       calls = status_calls @ apply_calls mig_a @ apply_calls mig_wipe\<rparr>,
      Inr [mig_a, mig_wipe]) \<and>
   snd (runMigrations table_engine
     \<lparr>ledger = Some [(2, ''wipe'')], user = [''a''],
      calls = status_calls @ apply_calls mig_a @ apply_calls mig_wipe\<rparr> [mig_a, mig_wipe]) =
     Inl (Error ''Failed to apply migration 1 (create a): table a already exists'')"
  by (simp add: run_a_wipe run_a_wipe_again)

text \<open>
  Claim C5 as the code has it. If the \<open>up\<close> scripts of \<open>L\<close> leave the ledger table as
  they find it and \<open>runMigrations\<close> returns on \<open>L\<close>, a second call on the database it left
  returns the empty list, leaves the ledger and the rest of the database unchanged and
  calls the engine for the status computation only.
\<close>

theorem runMigrations_idempotent:
  assumes "runMigrations eng db L = (db1, Inr applied)"
    and "\<forall>m\<in>set L. keeps_ledger eng (up m)"
  shows "\<exists>db2. runMigrations eng db1 L = (db2, Inr []) \<and>
           ledger db2 = ledger db1 \<and> user db2 = user db1 \<and>
           calls db2 = calls db1 @ status_calls"
proof -
  let ?pending = "sort_key version (filter (\<lambda>m. version m \<notin> applied_versions db) L)"
  let ?db0 = "\<lparr>ledger = Some (ledger_rows db), user = user db, calls = calls db @ status_calls\<rparr>"
  from assms(1) have run: "run_loop eng ?pending [] ?db0 = (db1, Inr applied)"
    by (simp add: runMigrations_eq)
  from run_loop_outcome [OF run] obtain applied' rest where
    "?pending = applied' @ rest"
    and "Inr applied = (Inr ([] @ ?pending) :: error + migration list) \<and> rest = [] \<and>
         calls db1 = calls ?db0 @ concat (map apply_calls applied')"
    and led: "\<forall>rs. ledger ?db0 = Some rs \<and> (\<forall>m\<in>set ?pending. keeps_ledger eng (up m)) \<longrightarrow>
        ledger db1 = Some (rs @ map ledger_entry applied')"
    by blast
  then have "applied' = ?pending" by simp
  with led assms(2) have l1: "ledger db1 = Some (ledger_rows db @ map ledger_entry ?pending)"
    by simp
  then have av: "applied_versions db1 = applied_versions db \<union> version ` set ?pending"
    by (auto simp: applied_versions_def ledger_rows_def ledger_entry_def image_Un image_image)
  have "filter (\<lambda>m. version m \<notin> applied_versions db1) L = []"
    unfolding av by (auto simp: filter_empty_conv)
  then have "runMigrations eng db1 L =
        (\<lparr>ledger = Some (ledger_rows db1), user = user db1, calls = calls db1 @ status_calls\<rparr>,
         Inr [])"
    by (simp add: runMigrations_eq)
  with l1 show ?thesis by (simp add: ledger_rows_def)
qed

text \<open>
  The second run after the three migrations were applied.
\<close>

theorem runMigrations_idempotent_witness:
  "runMigrations table_engine fresh_db [mig_c, mig_b, mig_a] =
     (db_abc, Inr [mig_a, mig_b, mig_c]) \<and>
   keeps_ledger table_engine (up mig_c) \<and> keeps_ledger table_engine (up mig_b) \<and>
   keeps_ledger table_engine (up mig_a) \<and>
   runMigrations table_engine db_abc [mig_c, mig_b, mig_a] =
     (db_abc\<lparr>calls := calls db_abc @ status_calls\<rparr>, Inr [])"
proof -
  have k: "\<forall>m\<in>set [mig_c, mig_b, mig_a]. keeps_ledger table_engine (up m)"
    by (simp add: keeps_a keeps_b keeps_c)
  from runMigrations_idempotent [OF run_abc k]
  obtain db2 where "runMigrations table_engine db_abc [mig_c, mig_b, mig_a] = (db2, Inr [])"
    and "ledger db2 = ledger db_abc" "user db2 = user db_abc"
    "calls db2 = calls db_abc @ status_calls"
    by blast
  then have "runMigrations table_engine db_abc [mig_c, mig_b, mig_a] =
     (db_abc\<lparr>calls := calls db_abc @ status_calls\<rparr>, Inr [])"
    by (cases db2) (simp add: db_abc_def)
  with run_abc keeps_a keeps_b keeps_c show ?thesis by simp
qed

subsection \<open>C6: the order of declaration\<close>

text \<open>
  Claim C6 says that every permutation of every list has the same outcome. The code does
  not check that versions are unique, and its sort is stable: two migrations of the same
  version stay in the order of their declaration. Here \<open>mig_a\<close> and \<open>mig_z\<close> both have
  version 1. Declared as \<open>[mig_a, mig_z]\<close> the run records \<open>mig_a\<close> and raises on the INSERT
  of \<open>mig_z\<close>; declared as \<open>[mig_z, mig_a]\<close> it records \<open>mig_z\<close> and raises on that of
  \<open>mig_a\<close>. The ledgers and the errors differ.
\<close>

theorem permutation_counterexample:
  "mset [mig_z, mig_a] = mset [mig_a, mig_z] \<and>
   ledger (fst (runMigrations table_engine fresh_db [mig_a, mig_z])) =
     Some [(1, ''create a'')] \<and>
   ledger (fst (runMigrations table_engine fresh_db [mig_z, mig_a])) =
     Some [(1, ''create z'')] \<and>
   snd (runMigrations table_engine fresh_db [mig_a, mig_z]) \<noteq>
   snd (runMigrations table_engine fresh_db [mig_z, mig_a])"
  by (simp add: run_a_z run_z_a add_mset_commute)

text \<open>
  Claim C6 as the code has it. For a list \<open>L\<close> whose versions are pairwise distinct (as
  types.ts asks: "must be unique and sequential") and any permutation \<open>L'\<close> of it,
  \<open>runMigrations\<close> has the same outcome from the same database: the same result, the same
  database, ledger included, and the same engine calls in the same order. The migrations
  it returns are in strictly ascending order of version.
\<close>

theorem runMigrations_permutation:
  assumes "mset L' = mset L" "distinct (map version L)"
  shows "runMigrations eng db L' = runMigrations eng db L \<and>
         (\<forall>db' applied. runMigrations eng db L = (db', Inr applied) \<longrightarrow>
            sorted (map version applied) \<and> distinct (map version applied))"
proof -
  have eq: "runMigrations eng db L' = runMigrations eng db L"
    by (simp add: runMigrations_eq pending_permutation [OF assms])
  have "sorted (map version applied) \<and> distinct (map version applied)"
    if "runMigrations eng db L = (db', Inr applied)" for db' applied
  proof -
    let ?pending = "sort_key version (filter (\<lambda>m. version m \<notin> applied_versions db) L)"
    from that have "run_loop eng ?pending []
        \<lparr>ledger = Some (ledger_rows db), user = user db, calls = calls db @ status_calls\<rparr> =
        (db', Inr applied)"
      by (simp add: runMigrations_eq)
    from run_loop_outcome [OF this] have "applied = ?pending" by auto
    moreover have "distinct (map version ?pending)"
      using assms(2) by (simp add: distinct_map inj_on_def)
    ultimately show ?thesis by simp
  qed
  with eq show ?thesis by blast
qed

text \<open>
  The three migrations declared in two different orders.
\<close>

theorem runMigrations_permutation_witness:
  "mset [mig_c, mig_a, mig_b] = mset [mig_a, mig_b, mig_c] \<and>
   distinct (map version [mig_a, mig_b, mig_c]) \<and>
   runMigrations table_engine fresh_db [mig_c, mig_a, mig_b] =
     runMigrations table_engine fresh_db [mig_a, mig_b, mig_c]"
proof -
  have p: "mset [mig_c, mig_a, mig_b] = mset [mig_a, mig_b, mig_c]"
    by (simp add: add_mset_commute)
  have d: "distinct (map version [mig_a, mig_b, mig_c])"
    by (simp add: mig_a_def mig_b_def mig_c_def)
  from runMigrations_permutation [OF p d, of table_engine fresh_db] p d show ?thesis
    by blast
qed

subsection \<open>C7: ledger versions that are not declared\<close>

text \<open>
  Claim C7. \<open>getMigrationStatus\<close> returns a status whatever the ledger holds. A ledger
  version \<open>v\<close> that no declared migration has is in \<open>appliedMigrations\<close>, is counted in the
  maximum \<open>currentVersion\<close>, and is the version of no pending migration.
\<close>

theorem status_unknown_versions:
  "\<exists>db1 st. getMigrationStatus eng db L = (db1, Inr st) \<and>
     (\<forall>v \<in> applied_versions db. v \<notin> version ` set L \<longrightarrow>
        v \<in> set (appliedMigrations st) \<and> v \<le> currentVersion st \<and>
        currentVersion st = Max (applied_versions db) \<and>
        v \<notin> version ` set (pendingMigrations st))"
  by (auto simp add: getMigrationStatus_eq applied_versions_def)

text \<open>
  Version 4 is in the ledger and not in the declared list.
\<close>

theorem status_unknown_versions_witness:
  "4 \<in> applied_versions db_unknown \<and> 4 \<notin> version ` set [mig_a, mig_b] \<and>
   (\<exists>db1 st. getMigrationStatus table_engine db_unknown [mig_a, mig_b] = (db1, Inr st) \<and>
      4 \<in> set (appliedMigrations st) \<and> 4 \<le> currentVersion st \<and>
      currentVersion st = 4 \<and> 4 \<notin> version ` set (pendingMigrations st))"
proof -
  have a: "4 \<in> applied_versions db_unknown" by (simp add: versions_unknown)
  have b: "4 \<notin> version ` set [mig_a, mig_b]" by (simp add: mig_a_def mig_b_def)
  have m: "Max (applied_versions db_unknown) = 4" by (simp add: versions_unknown)
  from status_unknown_versions [of table_engine db_unknown "[mig_a, mig_b]"] a b m
  show ?thesis by auto
qed

subsection \<open>C8: the precondition failures of rollbackMigration\<close>

text \<open>
  Claim C8. Let the current version be positive. If no declared migration has that
  version, \<open>rollbackMigration\<close> raises "Migration v not found in migrations list". If the
  declared migration found for it has no \<open>down\<close> script (none, or the empty string), it
  raises "Migration v (description) has no down migration". In both cases the ledger and
  the rest of the database are as before, and the engine was called for the status
  computation only. The two messages are different.
\<close>

theorem rollback_precondition_failures:
  assumes "getMigrationStatus eng db L = (db1, Inr st)" and "0 < currentVersion st"
  shows "(currentVersion st \<notin> version ` set L \<longrightarrow>
            (\<exists>db'. rollbackMigration eng db L =
                    (db', Inl (Error (''Migration '' @ show_number (currentVersion st) @
                                      '' not found in migrations list''))) \<and>
                  ledger db' = ledger db \<and> user db' = user db \<and>
                  calls db' = calls db @ status_calls)) \<and>
         (\<forall>m. find (\<lambda>m'. version m' = currentVersion st) L = Some m \<and>
              (down m = None \<or> down m = Some []) \<longrightarrow>
            (\<exists>db'. rollbackMigration eng db L =
                    (db', Inl (Error (''Migration '' @ show_number (version m) @ '' ('' @
                                      description m @ '') has no down migration''))) \<and>
                  ledger db' = ledger db \<and> user db' = user db \<and>
                  calls db' = calls db @ status_calls)) \<and>
         (\<forall>v d. ''Migration '' @ show_number v @ '' not found in migrations list'' \<noteq>
                ''Migration '' @ show_number v @ '' ('' @ d @ '') has no down migration'')"
proof -
  let ?cv = "Max (applied_versions db)"
  from assms have ne: "ledger_rows db \<noteq> []"
    by (auto simp: getMigrationStatus_eq split: if_splits)
  with assms(1) have cv: "currentVersion st = ?cv"
    by (auto simp: getMigrationStatus_eq)
  with assms(2) have cvn0: "?cv \<noteq> 0" by simp
  from ne obtain rs where rs: "ledger db = Some rs" "ledger_rows db = rs"
    by (auto simp: ledger_rows_def split: option.splits)
  have db1: "\<lparr>ledger = Some (ledger_rows db), user = user db,
              calls = calls db @ status_calls\<rparr> = db\<lparr>calls := calls db @ status_calls\<rparr>"
    by (cases db) (use rs in simp)
  show ?thesis
  proof (intro conjI allI impI)
    assume "currentVersion st \<notin> version ` set L"
    then have "find (\<lambda>m. version m = ?cv) L = None"
      unfolding cv by (simp add: find_version_None)
    with ne cvn0
    have "rollbackMigration eng db L =
       (db\<lparr>calls := calls db @ status_calls\<rparr>, Inl (not_found_error ?cv))"
      by (simp add: rollbackMigration_eq Let_def db1)
    then show "\<exists>db'. rollbackMigration eng db L =
                    (db', Inl (Error (''Migration '' @ show_number (currentVersion st) @
                                      '' not found in migrations list''))) \<and>
                  ledger db' = ledger db \<and> user db' = user db \<and>
                  calls db' = calls db @ status_calls"
      by (simp add: not_found_error_def cv)
  next
    fix m
    assume "find (\<lambda>m'. version m' = currentVersion st) L = Some m \<and>
              (down m = None \<or> down m = Some [])"
    then have "find (\<lambda>m. version m = ?cv) L = Some m" and "down m = None \<or> down m = Some []"
      unfolding cv by simp_all
    with ne cvn0
    have "rollbackMigration eng db L =
       (db\<lparr>calls := calls db @ status_calls\<rparr>, Inl (no_down_error m))"
      by (auto simp add: rollbackMigration_eq Let_def db1)
    then show "\<exists>db'. rollbackMigration eng db L =
                    (db', Inl (Error (''Migration '' @ show_number (version m) @ '' ('' @
                                      description m @ '') has no down migration''))) \<and>
                  ledger db' = ledger db \<and> user db' = user db \<and>
                  calls db' = calls db @ status_calls"
      by (simp add: no_down_error_def)
  next
    fix v d
    show "''Migration '' @ show_number v @ '' not found in migrations list'' \<noteq>
          ''Migration '' @ show_number v @ '' ('' @ d @ '') has no down migration''"
      by simp
  qed
qed

text \<open>
  The ledger holds version 4: it is not in the first list, and it has no \<open>down\<close> script
  in the second.
\<close>

theorem rollback_precondition_failures_witness:
  "getMigrationStatus table_engine db_unknown [mig_a, mig_b] =
     (db_unknown\<lparr>calls := status_calls\<rparr>,
      Inr \<lparr>currentVersion = 4, appliedMigrations = [1, 4], pendingMigrations = [mig_b]\<rparr>) \<and>
   (4 :: int) \<notin> version ` set [mig_a, mig_b] \<and>
   rollbackMigration table_engine db_unknown [mig_a, mig_b] =
     (db_unknown\<lparr>calls := status_calls\<rparr>,
      Inl (Error ''Migration 4 not found in migrations list'')) \<and>
   find (\<lambda>m. version m = 4) [mig_d, mig_a] = Some mig_d \<and> down mig_d = None \<and>
   rollbackMigration table_engine db_unknown [mig_d, mig_a] =
     (db_unknown\<lparr>calls := status_calls\<rparr>,
      Inl (Error ''Migration 4 (create d) has no down migration''))"
proof -
  let ?st1 = "\<lparr>currentVersion = 4, appliedMigrations = [1, 4], pendingMigrations = [mig_b]\<rparr>"
  let ?st2 = "\<lparr>currentVersion = 4, appliedMigrations = [1, 4], pendingMigrations = []\<rparr>"
  have c: "calls db_unknown = []" by (simp add: db_unknown_def)
  have s1: "getMigrationStatus table_engine db_unknown [mig_a, mig_b] =
      (db_unknown\<lparr>calls := status_calls\<rparr>, Inr ?st1)"
    by (simp add: status_unknown mig_a_def mig_b_def)
  have s2: "getMigrationStatus table_engine db_unknown [mig_d, mig_a] =
      (db_unknown\<lparr>calls := status_calls\<rparr>, Inr ?st2)"
    by (simp add: status_unknown mig_a_def mig_d_def)
  have pos1: "0 < currentVersion ?st1" and pos2: "0 < currentVersion ?st2" by simp_all
  have nf: "(4 :: int) \<notin> version ` set [mig_a, mig_b]" by (simp add: mig_a_def mig_b_def)
  have f: "find (\<lambda>m. version m = 4) [mig_d, mig_a] = Some mig_d" by (simp add: mig_d_def)
  have d: "down mig_d = None" by (simp add: mig_d_def)
  from rollback_precondition_failures [OF s1 pos1] nf
  obtain db' where "rollbackMigration table_engine db_unknown [mig_a, mig_b] =
      (db', Inl (Error (''Migration '' @ show_number 4 @ '' not found in migrations list'')))"
    and "ledger db' = ledger db_unknown" "user db' = user db_unknown"
    "calls db' = calls db_unknown @ status_calls"
    by auto
  then have r1: "rollbackMigration table_engine db_unknown [mig_a, mig_b] =
     (db_unknown\<lparr>calls := status_calls\<rparr>,
      Inl (Error ''Migration 4 not found in migrations list''))"
    by (cases db') (simp add: db_unknown_def show_4)
  from rollback_precondition_failures [OF s2 pos2] f d
  obtain db'' where "rollbackMigration table_engine db_unknown [mig_d, mig_a] =
      (db'', Inl (Error (''Migration '' @ show_number (version mig_d) @ '' ('' @
                         description mig_d @ '') has no down migration'')))"
    and "ledger db'' = ledger db_unknown" "user db'' = user db_unknown"
    "calls db'' = calls db_unknown @ status_calls"
    by auto
  then have r2: "rollbackMigration table_engine db_unknown [mig_d, mig_a] =
     (db_unknown\<lparr>calls := status_calls\<rparr>,
      Inl (Error ''Migration 4 (create d) has no down migration''))"
    by (cases db'') (simp add: db_unknown_def show_4 mig_d_def)
  from s1 nf r1 f d r2 show ?thesis by simp
qed

subsection \<open>C9: withConnection when the callback raises\<close>

text \<open>
  Claim C9. If the database was loaded and the callback raises \<open>e\<close>, then \<open>withConnection\<close>
  raises \<open>e\<close> itself; the handle is closed (the last call is \<open>Close\<close>, and as many handles
  are open as before); nothing was exported, no directory was made and no file was written,
  so that the files are unchanged.
\<close>

theorem withConnection_callback_raises:
  assumes "loadDatabase w (dbPath config) = (w1, Inr db)" and "fn db = (db1, Inl e)"
  shows "\<exists>w'. withConnection w config fn = (w', Inl e) \<and>
           files w' = files w \<and> open_handles w' = open_handles w \<and>
           (io w' = io w @ [NewDatabase, Close] \<or>
            io w' = io w @ [ReadFile (dbPath config), NewDatabase, Close])"
proof -
  from assms have "withConnection w config fn = (db_close w1, Inl e)"
    by (simp add: withConnection_def)
  with loadDatabase_cases [OF assms(1)] show ?thesis
    by (auto simp: db_close_def log_io_def)
qed

text \<open>
  A callback that runs a failing migration on a path with no file.
\<close>

theorem withConnection_callback_raises_witness:
  "loadDatabase empty_world (dbPath \<lparr>dbPath = ''data/app.db''\<rparr>) =
     (empty_world\<lparr>open_handles := 1, io := [ReadFile ''data/app.db'', NewDatabase]\<rparr>,
      Inr fresh_db) \<and>
   runMigrations table_engine fresh_db [mig_bad] =
     (\<lparr>ledger = Some [], user = [''b''], calls = status_calls @ [Exec (up mig_bad)]\<rparr>,
      Inl (Error (''Failed to apply migration 2 (create b): '' @
                  message (syntax_error ''BOGUS'')))) \<and>
   withConnection empty_world \<lparr>dbPath = ''data/app.db''\<rparr>
       (\<lambda>db. runMigrations table_engine db [mig_bad]) =
     (empty_world\<lparr>io := [ReadFile ''data/app.db'', NewDatabase, Close]\<rparr>,
      Inl (Error (''Failed to apply migration 2 (create b): '' @
                  message (syntax_error ''BOGUS''))))"
proof -
  let ?e = "Error (''Failed to apply migration 2 (create b): '' @
                  message (syntax_error ''BOGUS''))"
  have l: "loadDatabase empty_world (dbPath \<lparr>dbPath = ''data/app.db''\<rparr>) =
     (empty_world\<lparr>open_handles := 1, io := [ReadFile ''data/app.db'', NewDatabase]\<rparr>,
      Inr fresh_db)"
    by (simp add: loadDatabase_def new_Database_def log_io_def empty_world_def fresh_db_def)
  note f = run_bad
  from withConnection_callback_raises
    [of empty_world "\<lparr>dbPath = ''data/app.db''\<rparr>" _ fresh_db
        "\<lambda>db. runMigrations table_engine db [mig_bad]", OF l f]
  obtain w' where "withConnection empty_world \<lparr>dbPath = ''data/app.db''\<rparr>
       (\<lambda>db. runMigrations table_engine db [mig_bad]) = (w', Inl ?e)"
    and "files w' = files empty_world" "open_handles w' = open_handles empty_world"
    and "io w' = io empty_world @ [NewDatabase, Close] \<or>
         io w' = io empty_world @ [ReadFile ''data/app.db'', NewDatabase, Close]"
    by auto
  moreover have "withConnection empty_world \<lparr>dbPath = ''data/app.db''\<rparr>
       (\<lambda>db. runMigrations table_engine db [mig_bad]) =
     (empty_world\<lparr>io := [ReadFile ''data/app.db'', NewDatabase, Close]\<rparr>, Inl ?e)"
    using l f by (simp add: withConnection_def db_close_def log_io_def empty_world_def)
  ultimately show ?thesis using l f by simp
qed

subsection \<open>C10: query on a statement without rows\<close>

text \<open>
  Claim C10. If the prepared statement steps through no row, \<open>query\<close> returns no columns
  and no rows, whatever the column names of the statement are: the names are read only
  after a first successful step.
\<close>

theorem query_no_rows_no_columns:
  "db_prepare eng s ps db = (db1, Inr stmt) \<Longrightarrow> steps stmt = [] \<Longrightarrow>
   query eng db s ps = (db1, Inr \<lparr>columns = [], rows = []\<rparr>)"
  by (simp add: query_def)

text \<open>
  The ledger's SELECT on an empty ledger: the statement has the column \<open>version\<close>, the
  result has no column.
\<close>

theorem query_no_rows_no_columns_witness:
  "db_prepare table_engine SELECT_VERSIONS_SQL [] (fresh_db\<lparr>ledger := Some []\<rparr>) =
     (fresh_db\<lparr>ledger := Some [], calls := [Prepare SELECT_VERSIONS_SQL []]\<rparr>,
      Inr \<lparr>columnNames = [''version''], steps = []\<rparr>) \<and>
   query table_engine (fresh_db\<lparr>ledger := Some []\<rparr>) SELECT_VERSIONS_SQL [] =
     (fresh_db\<lparr>ledger := Some [], calls := [Prepare SELECT_VERSIONS_SQL []]\<rparr>,
      Inr \<lparr>columns = [], rows = []\<rparr>)"
proof -
  have p: "db_prepare table_engine SELECT_VERSIONS_SQL [] (fresh_db\<lparr>ledger := Some []\<rparr>) =
     (fresh_db\<lparr>ledger := Some [], calls := [Prepare SELECT_VERSIONS_SQL []]\<rparr>,
      Inr \<lparr>columnNames = [''version''], steps = []\<rparr>)"
    by (simp add: db_prepare_def ledger_select_def fresh_db_def)
  from query_no_rows_no_columns [OF p] p show ?thesis by simp
qed

end
